theory Spec2Isabelle
  imports Complex_Main "HOL-Library.AList" "HOL-Library.Monad_Syntax" "HOL-Library.Sublist"
begin

section \<open>Go values\<close>

text \<open>
  \<^verbatim>\<open>encoding/json\<close> decodes into \<^verbatim>\<open>interface{}\<close> one of six dynamic types: nil, bool,
  float64, string, \<^verbatim>\<open>[]interface{}\<close> and \<^verbatim>\<open>map[string]interface{}\<close>. A decoded number is a
  finite float64, hence a rational. A Go map holds each key once; its entries are kept as an
  association list, in the order \<^verbatim>\<open>range\<close> visits them (an order Go leaves open, so nothing
  below depends on it). \<^verbatim>\<open>m[k]\<close> reads with \<open>map_of\<close>, \<^verbatim>\<open>m[k] = v\<close> writes with
  \<open>AList.update\<close>.
\<close>

datatype anyval =
    AnyNil
  | AnyBool bool
  | AnyFloat64 rat
  | AnyString string
  | AnySlice "anyval list"
  | AnyMap "(string \<times> anyval) list"

text \<open>
  A type assertion \<^verbatim>\<open>x.(T)\<close> in its one-result form panics when the dynamic type of
  \<^verbatim>\<open>x\<close> is not \<^verbatim>\<open>T\<close> (a nil interface included). A computation that may panic returns
  an option: \<open>None\<close> is the panic, which unwinds the call and leaves no result.
\<close>

fun assert_string :: "anyval \<Rightarrow> string option" where
  "assert_string (AnyString s) = Some s"
| "assert_string _ = None"

fun assert_float64 :: "anyval \<Rightarrow> rat option" where
  "assert_float64 (AnyFloat64 f) = Some f"
| "assert_float64 _ = None"

fun assert_slice :: "anyval \<Rightarrow> anyval list option" where
  "assert_slice (AnySlice xs) = Some xs"
| "assert_slice _ = None"

fun assert_map :: "anyval \<Rightarrow> (string \<times> anyval) list option" where
  "assert_map (AnyMap m) = Some m"
| "assert_map _ = None"

text \<open>
  The two-result form \<^verbatim>\<open>m, ok := x.(map[string]interface{})\<close> does not panic: on a mismatch
  it gives the nil map and \<^verbatim>\<open>false\<close>.
\<close>

fun assert_map_ok :: "anyval \<Rightarrow> (string \<times> anyval) list \<times> bool" where
  "assert_map_ok (AnyMap m) = (m, True)"
| "assert_map_ok _ = ([], False)"

text \<open>Reading a key that a \<^verbatim>\<open>map[string]interface{}\<close> lacks gives the nil interface.\<close>

definition index_any :: "(string \<times> anyval) list \<Rightarrow> string \<Rightarrow> anyval" where
  "index_any m k = (case map_of m k of None \<Rightarrow> AnyNil | Some v \<Rightarrow> v)"

text \<open>Reading a key that a \<^verbatim>\<open>map[K]bool\<close> lacks gives \<^verbatim>\<open>false\<close>.\<close>

definition index_bool :: "('k \<times> bool) list \<Rightarrow> 'k \<Rightarrow> bool" where
  "index_bool m k = (case map_of m k of None \<Rightarrow> False | Some b \<Rightarrow> b)"

text \<open>
  The conversion \<^verbatim>\<open>int(f)\<close> of a float64 discards the fraction (truncation towards zero).
  Outside the range of a 64-bit int Go leaves the result to the implementation; the value
  written here is the one amd64 produces, and no result below depends on it.
\<close>

definition int_of_float64 :: "rat \<Rightarrow> int" where
  "int_of_float64 f =
     (let t = (if 0 \<le> f then \<lfloor>f\<rfloor> else \<lceil>f\<rceil>)
      in if - (2 ^ 63) \<le> t \<and> t < 2 ^ 63 then t else - (2 ^ 63))"

text \<open>The three access patterns of \<^verbatim>\<open>GetCertStoreInventory\<close>:
  \<^verbatim>\<open>x.(map[string]interface{})[k].(string)\<close>, the same ending in \<^verbatim>\<open>.(float64)\<close>, and in
  \<^verbatim>\<open>.([]interface{})\<close>.\<close>

definition field_string :: "anyval \<Rightarrow> string \<Rightarrow> string option" where
  "field_string x k = do { m \<leftarrow> assert_map x; assert_string (index_any m k) }"

definition field_float64 :: "anyval \<Rightarrow> string \<Rightarrow> rat option" where
  "field_float64 x k = do { m \<leftarrow> assert_map x; assert_float64 (index_any m k) }"

definition field_slice :: "anyval \<Rightarrow> string \<Rightarrow> anyval list option" where
  "field_slice x k = do { m \<leftarrow> assert_map x; assert_slice (index_any m k) }"

section \<open>Errors, requests and the transport\<close>

text \<open>An \<^verbatim>\<open>error\<close> made by \<^verbatim>\<open>errors.New\<close> or \<^verbatim>\<open>fmt.Errorf\<close> is its message.\<close>

datatype error = ErrorString (message: string)

text \<open>
  The struct declarations (\<^verbatim>\<open>request\<close>, \<^verbatim>\<open>CreateStoreFctArgs\<close>, \<^verbatim>\<open>CertStoreInventory\<close>, ...)
  are outside the two source files; each record below has the fields that
  \<^verbatim>\<open>store.go\<close> reads or writes, typed as its composite literals type them. A nil
  \<^verbatim>\<open>Payload\<close> is \<open>None\<close>.
\<close>

record 'p request =
  Method :: string
  Endpoint :: string
  Headers :: "(string \<times> string) list"
  Payload :: "'p option"

record response =
  StatusCode :: int
  Body :: string

text \<open>
  \<^verbatim>\<open>c.sendRequest\<close> is the transport collaborator: it is a parameter of every operation. It
  acts on the world outside the client (\<open>'w\<close>: the remote service, the network), so it takes
  the world and returns the new one with its answer.
\<close>

type_synonym ('p, 'w) transport = "'p request \<Rightarrow> 'w \<Rightarrow> (error + response) \<times> 'w"

definition keyfactor_headers :: "(string \<times> string) list" where
  "keyfactor_headers =
     [(''x-keyfactor-api-version'', ''1''), (''x-keyfactor-requested-with'', ''APIClient'')]"

definition StatusNoContent :: int where
  "StatusNoContent = 204"

text \<open>The verbs \<^verbatim>\<open>%s\<close> and \<^verbatim>\<open>%d\<close> of \<^verbatim>\<open>fmt\<close>: a string as it is, an int in decimal.\<close>

fun decimal :: "nat \<Rightarrow> string" where
  "decimal n =
     (if n < 10 then [''0123456789'' ! n]
      else decimal (n div 10) @ [''0123456789'' ! (n mod 10)])"

declare decimal.simps [simp del]

definition Sprintf_d :: "int \<Rightarrow> string" where
  "Sprintf_d i = (if i < 0 then ''-'' @ decimal (nat (- i)) else decimal (nat i))"

section \<open>Store arguments and their validation\<close>

text \<open>
  \<^verbatim>\<open>CreateStoreFctArgs\<close> and \<^verbatim>\<open>UpdateStoreFctArgs\<close> both carry the five fields below; what
  else they carry is the record's extension.
\<close>

record StoreFctArgs =
  ClientMachine :: string
  StorePath :: string
  AgentId :: string
  Properties :: "(string \<times> string) list"
  PropertiesString :: string

definition validateCreateStoreArgs :: "'a StoreFctArgs_scheme \<Rightarrow> error option" where
  "validateCreateStoreArgs ca =
     (if ClientMachine ca = '''' then
        Some (ErrorString ''client machine is required for creation of new certificate store'')
      else if StorePath ca = '''' then
        Some (ErrorString ''store path is required for creation of new certificate store'')
      else if AgentId ca = '''' then
        Some (ErrorString
          ''orchestrator agent id is required for creation of new certificate store'')
      else None)"

definition validateUpdateStoreArgs :: "'a StoreFctArgs_scheme \<Rightarrow> error option" where
  "validateUpdateStoreArgs ca =
     (if ClientMachine ca = '''' then
        Some (ErrorString ''client machine is required for creation of new certificate store'')
      else if StorePath ca = '''' then
        Some (ErrorString ''store path is required for creation of new certificate store'')
      else if AgentId ca = '''' then
        Some (ErrorString
          ''orchestrator agent id is required for creation of new certificate store'')
      else None)"

section \<open>The property codec\<close>

text \<open>\<^verbatim>\<open>buildPropertiesInterface\<close>: the loop over \<^verbatim>\<open>properties\<close> is a fold over its entries.\<close>

definition buildPropertiesInterface :: "(string \<times> string) list \<Rightarrow> anyval" where
  "buildPropertiesInterface properties =
     AnyMap (fold (\<lambda>(key, value) propertiesInterface.
                     AList.update key (AnyMap (AList.update ''value'' (AnyString value) []))
                       propertiesInterface)
               properties [])"

text \<open>
  \<^verbatim>\<open>unmarshalPropertiesString\<close>. \<^verbatim>\<open>json.Unmarshal\<close> is the standard library's: a parameter,
  returning the decoded value or the error. The loop over the decoded map asserts every
  value to be a string.
\<close>

fun range_tempInterface ::
  "(string \<times> anyval) list \<Rightarrow> (string \<times> string) list \<Rightarrow> (string \<times> string) list option" where
  "range_tempInterface [] newMap = Some newMap"
| "range_tempInterface ((key, value) # rest) newMap =
     do { s \<leftarrow> assert_string value;
          range_tempInterface rest (AList.update key s newMap) }"

definition unmarshalPropertiesString ::
  "(string \<Rightarrow> error + anyval) \<Rightarrow> string \<Rightarrow> (string \<times> string) list option" where
  "unmarshalPropertiesString json_Unmarshal properties =
     (if properties \<noteq> '''' then
        (case json_Unmarshal properties of
           Inl err \<Rightarrow> Some []
         | Inr tempInterface \<Rightarrow>
             do { m \<leftarrow> assert_map tempInterface; range_tempInterface m [] })
      else Some [])"

section \<open>Store operations\<close>

text \<open>
  \<^verbatim>\<open>CreateStore\<close> and \<^verbatim>\<open>UpdateStore\<close> write \<^verbatim>\<open>PropertiesString\<close> through the pointer they
  are given, so each returns the argument record as the caller finds it afterwards, between
  its result and the world. \<^verbatim>\<open>json.Marshal\<close> and the decoding of the response body are
  parameters. The log lines the operations print are left out.
\<close>

definition CreateStore ::
  "(anyval \<Rightarrow> error + string) \<Rightarrow> ('a StoreFctArgs_scheme, 'w) transport \<Rightarrow> (string \<Rightarrow> error + 'r) \<Rightarrow>
   'a StoreFctArgs_scheme \<Rightarrow> 'w \<Rightarrow> (error + 'r) \<times> 'a StoreFctArgs_scheme \<times> 'w" where
  "CreateStore json_Marshal sendRequest json_Decode ca w =
     (case validateCreateStoreArgs ca of
        Some err \<Rightarrow> (Inl err, ca, w)
      | None \<Rightarrow>
          (case (if PropertiesString ca = '''' then
                   (case json_Marshal (buildPropertiesInterface (Properties ca)) of
                      Inl err \<Rightarrow> Inl err
                    | Inr propertiesJson \<Rightarrow> Inr (ca\<lparr>PropertiesString := propertiesJson\<rparr>))
                 else Inr ca) of
             Inl err \<Rightarrow> (Inl err, ca, w)
           | Inr ca' \<Rightarrow>
               (case sendRequest
                       \<lparr>Method = ''POST'', Endpoint = ''CertificateStores'',
                        Headers = keyfactor_headers, Payload = Some ca'\<rparr> w of
                  (Inl err, w') \<Rightarrow> (Inl err, ca', w')
                | (Inr resp, w') \<Rightarrow>
                    (case json_Decode (Body resp) of
                       Inl err \<Rightarrow> (Inl err, ca', w')
                     | Inr jsonResp \<Rightarrow> (Inr jsonResp, ca', w')))))"

definition UpdateStore ::
  "(anyval \<Rightarrow> error + string) \<Rightarrow> ('a StoreFctArgs_scheme, 'w) transport \<Rightarrow> (string \<Rightarrow> error + 'r) \<Rightarrow>
   'a StoreFctArgs_scheme \<Rightarrow> 'w \<Rightarrow> (error + 'r) \<times> 'a StoreFctArgs_scheme \<times> 'w" where
  "UpdateStore json_Marshal sendRequest json_Decode ua w =
     (case validateUpdateStoreArgs ua of
        Some err \<Rightarrow> (Inl err, ua, w)
      | None \<Rightarrow>
          (case (if PropertiesString ua = '''' then
                   (case json_Marshal (buildPropertiesInterface (Properties ua)) of
                      Inl err \<Rightarrow> Inl err
                    | Inr propertiesJson \<Rightarrow> Inr (ua\<lparr>PropertiesString := propertiesJson\<rparr>))
                 else Inr ua) of
             Inl err \<Rightarrow> (Inl err, ua, w)
           | Inr ua' \<Rightarrow>
               (case sendRequest
                       \<lparr>Method = ''Put'', Endpoint = ''CertificateStores'',
                        Headers = keyfactor_headers, Payload = Some ua'\<rparr> w of
                  (Inl err, w') \<Rightarrow> (Inl err, ua', w')
                | (Inr resp, w') \<Rightarrow>
                    (case json_Decode (Body resp) of
                       Inl err \<Rightarrow> (Inl err, ua', w')
                     | Inr jsonResp \<Rightarrow> (Inr jsonResp, ua', w')))))"

text \<open>\<^verbatim>\<open>DeleteCertificateStore\<close> returns an error, or nil (\<open>None\<close>).\<close>

definition DeleteCertificateStore ::
  "('p, 'w) transport \<Rightarrow> string \<Rightarrow> 'w \<Rightarrow> error option \<times> 'w" where
  "DeleteCertificateStore sendRequest storeId w =
     (let endpoint = ''CertificateStores/'' @ storeId;
          keyfactorAPIStruct =
            \<lparr>Method = ''DELETE'', Endpoint = endpoint, Headers = keyfactor_headers,
             Payload = None\<rparr>
      in case sendRequest keyfactorAPIStruct w of
           (Inl err, w') \<Rightarrow> (Some err, w')
         | (Inr resp, w') \<Rightarrow>
             if StatusCode resp \<noteq> StatusNoContent then
               (Some (ErrorString
                  (''[ERROR] Something unexpected happened, '' @ Method keyfactorAPIStruct
                   @ '' call to '' @ Endpoint keyfactorAPIStruct
                   @ '' returned status '' @ Sprintf_d (StatusCode resp))), w')
             else (None, w'))"

section \<open>The inventory decoder\<close>

subsection \<open>Records\<close>

text \<open>
  The field \<^verbatim>\<open>Id\<close> of a certificate is \<open>Id_cert\<close> (\<open>Id\<close> is the identity relation of HOL),
  and its \<^verbatim>\<open>CertStoreInventoryItemId\<close> is \<open>CertStoreInventoryItemId_cert\<close>, the plain name
  being the field of the item.
\<close>

record InventoriedCertificate =
  Id_cert :: int
  IssuedDN :: string
  SerialNumber :: string
  NotBefore :: string
  NotAfter :: string
  SigningAlgorithm :: string
  IssuerDN :: string
  Thumbprint :: string
  CertStoreInventoryItemId_cert :: int

text \<open>
  A slice value is a header: the address of its backing array, its length and its
  capacity. A map value is the address of the map. Copying a struct copies the header and
  the addresses, not what they point to.
\<close>

record slice =
  s_array :: nat
  s_len :: nat
  s_cap :: nat

record CertStoreInventory =
  Name :: string
  CertStoreInventoryItemId :: int
  Certificates :: slice
  Parameters :: "(string \<times> anyval) list"
  Thumbprints :: nat
  Serials :: nat
  Ids :: nat

subsection \<open>The store\<close>

text \<open>
  The store holds what the decoder allocates and mutates: the backing arrays of
  \<^verbatim>\<open>[]InventoriedCertificate\<close> slices, the \<^verbatim>\<open>map[string]bool\<close> objects and the
  \<^verbatim>\<open>map[int]bool\<close> objects. An address is an index; allocation appends.
\<close>

record heap =
  arrays :: "InventoriedCertificate list list"
  strmaps :: "(string \<times> bool) list list"
  intmaps :: "(int \<times> bool) list list"

definition zero_InventoriedCertificate :: InventoriedCertificate where
  "zero_InventoriedCertificate =
     \<lparr>Id_cert = 0, IssuedDN = [], SerialNumber = [], NotBefore = [], NotAfter = [],
      SigningAlgorithm = [], IssuerDN = [], Thumbprint = [],
      CertStoreInventoryItemId_cert = 0\<rparr>"

text \<open>\<^verbatim>\<open>[]InventoriedCertificate{}\<close>: length and capacity 0, no backing array of its own.\<close>

definition empty_slice :: slice where
  "empty_slice = \<lparr>s_array = 0, s_len = 0, s_cap = 0\<rparr>"

text \<open>The elements a slice header gives access to; a header of length 0 reads nothing.\<close>

definition slice_elems :: "heap \<Rightarrow> slice \<Rightarrow> InventoriedCertificate list" where
  "slice_elems h s = (if s_len s = 0 then [] else take (s_len s) (arrays h ! s_array s))"

text \<open>
  \<^verbatim>\<open>append(s, x)\<close>. With room left, \<^verbatim>\<open>x\<close> is written into the backing array at index
  \<^verbatim>\<open>len(s)\<close> and the header returned is one longer. Without, a new array is allocated, the
  elements copied, and the header returned points to it. How much larger the new array is
  belongs to the runtime: \<open>growslice\<close>, a parameter, proposes a capacity from the old one,
  and the language guarantees room for the element.
\<close>

definition append_slice ::
  "(nat \<Rightarrow> nat) \<Rightarrow> heap \<Rightarrow> slice \<Rightarrow> InventoriedCertificate \<Rightarrow> heap \<times> slice" where
  "append_slice growslice h s x =
     (if s_len s < s_cap s then
        (h\<lparr>arrays := (arrays h)[s_array s := (arrays h ! s_array s)[s_len s := x]]\<rparr>,
         s\<lparr>s_len := s_len s + 1\<rparr>)
      else
        (let newcap = max (growslice (s_cap s)) (s_len s + 1);
             new = slice_elems h s @ [x]
                   @ replicate (newcap - (s_len s + 1)) zero_InventoriedCertificate
         in (h\<lparr>arrays := arrays h @ [new]\<rparr>,
             \<lparr>s_array = length (arrays h), s_len = s_len s + 1, s_cap = newcap\<rparr>)))"

definition make_strmap :: "heap \<Rightarrow> heap \<times> nat" where
  "make_strmap h = (h\<lparr>strmaps := strmaps h @ [[]]\<rparr>, length (strmaps h))"

definition make_intmap :: "heap \<Rightarrow> heap \<times> nat" where
  "make_intmap h = (h\<lparr>intmaps := intmaps h @ [[]]\<rparr>, length (intmaps h))"

definition assign_strmap :: "heap \<Rightarrow> nat \<Rightarrow> string \<Rightarrow> bool \<Rightarrow> heap" where
  "assign_strmap h a k v = h\<lparr>strmaps := (strmaps h)[a := AList.update k v (strmaps h ! a)]\<rparr>"

definition assign_intmap :: "heap \<Rightarrow> nat \<Rightarrow> int \<Rightarrow> bool \<Rightarrow> heap" where
  "assign_intmap h a k v = h\<lparr>intmaps := (intmaps h)[a := AList.update k v (intmaps h ! a)]\<rparr>"

subsection \<open>The loops of \<^verbatim>\<open>GetCertStoreInventory\<close>\<close>

text \<open>The composite literal \<^verbatim>\<open>iCert\<close> (lines 339 to 349): nine unchecked assertions.\<close>

definition iCert_literal :: "anyval \<Rightarrow> InventoriedCertificate option" where
  "iCert_literal cert =
     do { id \<leftarrow> field_float64 cert ''Id'';
          issuedDN \<leftarrow> field_string cert ''IssuedDN'';
          serialNumber \<leftarrow> field_string cert ''SerialNumber'';
          notBefore \<leftarrow> field_string cert ''NotBefore'';
          notAfter \<leftarrow> field_string cert ''NotAfter'';
          signingAlgorithm \<leftarrow> field_string cert ''SigningAlgorithm'';
          issuerDN \<leftarrow> field_string cert ''IssuerDN'';
          thumbprint \<leftarrow> field_string cert ''Thumbprint'';
          itemId \<leftarrow> field_float64 cert ''CertStoreInventoryItemId'';
          Some \<lparr>Id_cert = int_of_float64 id, IssuedDN = issuedDN, SerialNumber = serialNumber,
                NotBefore = notBefore, NotAfter = notAfter,
                SigningAlgorithm = signingAlgorithm, IssuerDN = issuerDN,
                Thumbprint = thumbprint,
                CertStoreInventoryItemId_cert = int_of_float64 itemId\<rparr> }"

text \<open>
  The inner loop (lines 338 to 355) over the certificates of one element. Its state is the
  store, the struct \<^verbatim>\<open>invC\<close> and the result slice \<^verbatim>\<open>invResp\<close>. The last statement of the body
  appends a copy of \<^verbatim>\<open>invC\<close> to \<^verbatim>\<open>invResp\<close>. (\<^verbatim>\<open>invResp\<close> has one owner, so it is a list of
  the structs it holds.)
\<close>

fun range_Certificates ::
  "(nat \<Rightarrow> nat) \<Rightarrow> anyval list \<Rightarrow> heap \<times> CertStoreInventory \<times> CertStoreInventory list \<Rightarrow>
   (heap \<times> CertStoreInventory \<times> CertStoreInventory list) option" where
  "range_Certificates growslice [] st = Some st"
| "range_Certificates growslice (cert # rest) (h, invC, invResp) =
     do { iCert \<leftarrow> iCert_literal cert;
          let (h1, certificates) = append_slice growslice h (Certificates invC) iCert;
          let invC1 = invC\<lparr>Certificates := certificates\<rparr>;
          thumbprint \<leftarrow> field_string cert ''Thumbprint'';
          let h2 = assign_strmap h1 (Thumbprints invC1) thumbprint True;
          serialNumber \<leftarrow> field_string cert ''SerialNumber'';
          let h3 = assign_strmap h2 (Serials invC1) serialNumber True;
          id \<leftarrow> field_float64 cert ''Id'';
          let h4 = assign_intmap h3 (Ids invC1) (int_of_float64 id) True;
          range_Certificates growslice rest (h4, invC1, invResp @ [invC1]) }"

text \<open>
  The outer loop (lines 324 to 356) over the elements of the payload. \<^verbatim>\<open>Parameters\<close> is read
  with the two-result assertion, which does not panic; the assertion of \<^verbatim>\<open>storedCert\<close>
  itself, inside the same expression, does.
\<close>

fun range_jsonResp ::
  "(nat \<Rightarrow> nat) \<Rightarrow> anyval list \<Rightarrow> heap \<times> CertStoreInventory list \<Rightarrow>
   (heap \<times> CertStoreInventory list) option" where
  "range_jsonResp growslice [] st = Some st"
| "range_jsonResp growslice (storedCert # rest) (h, invResp) =
     do { m \<leftarrow> assert_map storedCert;
          let (params, ok) = assert_map_ok (index_any m ''Parameters'');
          let params = (if \<not> ok then [] else params);
          name \<leftarrow> field_string storedCert ''Name'';
          itemId \<leftarrow> field_float64 storedCert ''CertStoreInventoryItemId'';
          let (h1, thumbprints) = make_strmap h;
          let (h2, serials) = make_strmap h1;
          let (h3, ids) = make_intmap h2;
          let invC = \<lparr>Name = name, CertStoreInventoryItemId = int_of_float64 itemId,
                      Certificates = empty_slice, Parameters = params,
                      Thumbprints = thumbprints, Serials = serials, Ids = ids\<rparr>;
          certificates \<leftarrow> field_slice storedCert ''Certificates'';
          (h4, invC', invResp') \<leftarrow> range_Certificates growslice certificates (h3, invC, invResp);
          range_jsonResp growslice rest (h4, invResp') }"

text \<open>
  \<^verbatim>\<open>GetCertStoreInventory\<close>. The decoding of the response body into \<^verbatim>\<open>[]interface{}\<close> is a
  parameter. The result is \<open>None\<close> for a panic; otherwise the error or the result slice,
  with the store its addresses refer to, and the world.
\<close>

definition GetCertStoreInventory ::
  "('p, 'w) transport \<Rightarrow> (string \<Rightarrow> error + anyval list) \<Rightarrow> (nat \<Rightarrow> nat) \<Rightarrow>
   string \<Rightarrow> heap \<Rightarrow> 'w \<Rightarrow> ((error + CertStoreInventory list) \<times> heap \<times> 'w) option" where
  "GetCertStoreInventory sendRequest json_Decode growslice storeId h w =
     (let endpoint = ''CertificateStores/'' @ storeId @ ''/Inventory'';
          keyfactorAPIStruct =
            \<lparr>Method = ''GET'', Endpoint = endpoint, Headers = keyfactor_headers,
             Payload = None\<rparr>
      in case sendRequest keyfactorAPIStruct w of
           (Inl err, w') \<Rightarrow> Some (Inl err, h, w')
         | (Inr resp, w') \<Rightarrow>
             (case json_Decode (Body resp) of
                Inl err \<Rightarrow> Some (Inl err, h, w')
              | Inr jsonResp \<Rightarrow>
                  if length jsonResp = 0 then Some (Inr [], h, w')
                  else
                    do { (h', invResp) \<leftarrow> range_jsonResp growslice jsonResp (h, []);
                         Some (Inr invResp, h', w') }))"

subsection \<open>Reading the result\<close>

text \<open>
  What a caller reads through a returned item: the elements of \<^verbatim>\<open>item.Certificates\<close> and
  the three maps, in the store returned with the item. Membership in a set is
  \<^verbatim>\<open>item.Thumbprints[x]\<close>, that is \<open>index_bool (Thumbprints_of h item) x\<close>.
\<close>

definition Certificates_of :: "heap \<Rightarrow> CertStoreInventory \<Rightarrow> InventoriedCertificate list" where
  "Certificates_of h item = slice_elems h (Certificates item)"

definition Thumbprints_of :: "heap \<Rightarrow> CertStoreInventory \<Rightarrow> (string \<times> bool) list" where
  "Thumbprints_of h item = strmaps h ! Thumbprints item"

definition Serials_of :: "heap \<Rightarrow> CertStoreInventory \<Rightarrow> (string \<times> bool) list" where
  "Serials_of h item = strmaps h ! Serials item"

definition Ids_of :: "heap \<Rightarrow> CertStoreInventory \<Rightarrow> (int \<times> bool) list" where
  "Ids_of h item = intmaps h ! Ids item"

text \<open>The number of certificates a payload element holds.\<close>

definition len_Certificates :: "anyval \<Rightarrow> nat" where
  "len_Certificates storedCert =
     (case field_slice storedCert ''Certificates'' of None \<Rightarrow> 0 | Some certs \<Rightarrow> length certs)"

text \<open>
  A payload element on which no assertion of the loop body panics: it is an object with a
  string \<^verbatim>\<open>Name\<close>, a numeric \<^verbatim>\<open>CertStoreInventoryItemId\<close> and an array \<^verbatim>\<open>Certificates\<close>, each
  element of which gives an \<^verbatim>\<open>iCert\<close>.
\<close>

definition well_typed_element :: "anyval \<Rightarrow> bool" where
  "well_typed_element storedCert =
     (case field_slice storedCert ''Certificates'' of
        None \<Rightarrow> False
      | Some certs \<Rightarrow>
          field_string storedCert ''Name'' \<noteq> None
          \<and> field_float64 storedCert ''CertStoreInventoryItemId'' \<noteq> None
          \<and> list_all (\<lambda>cert. iCert_literal cert \<noteq> None) certs)"

text \<open>
  An item and the payload element it was built from: the element holds at least one
  certificate, and the item has its name, its item id and its parameters.
\<close>

definition comes_from :: "anyval \<Rightarrow> CertStoreInventory \<Rightarrow> bool" where
  "comes_from storedCert item \<longleftrightarrow>
     0 < len_Certificates storedCert
   \<and> field_string storedCert ''Name'' = Some (Name item)
   \<and> map_option int_of_float64 (field_float64 storedCert ''CertStoreInventoryItemId'')
       = Some (CertStoreInventoryItemId item)
   \<and> map_option (\<lambda>m. fst (assert_map_ok (index_any m ''Parameters''))) (assert_map storedCert)
       = Some (Parameters item)"

text \<open>
  A nil slice and an empty slice are both the empty list here: \<^verbatim>\<open>invResp\<close> is nil when the
  payload is not empty and no element of it holds a certificate, and empty when the payload
  is; both have length 0.
\<close>

section \<open>Invariants of the decoder's store\<close>

text \<open>
  A slice header is valid in a store when its length is within its capacity and, if it has
  capacity, its backing array is allocated (at or above a given address) and is as long as
  the capacity.
\<close>

definition valid_slice :: "nat \<Rightarrow> heap \<Rightarrow> slice \<Rightarrow> bool" where
  "valid_slice base h s \<longleftrightarrow>
     s_len s \<le> s_cap s \<and>
     (0 < s_cap s \<longrightarrow>
        base \<le> s_array s \<and> s_array s < length (arrays h)
        \<and> length (arrays h ! s_array s) = s_cap s)"

text \<open>The map a loop builds by assigning \<^verbatim>\<open>true\<close> at one key per element.\<close>

definition mark_all :: "('a \<Rightarrow> 'k) \<Rightarrow> 'a list \<Rightarrow> ('k \<times> bool) list" where
  "mark_all f xs = fold (\<lambda>x m. AList.update (f x) True m) xs []"

text \<open>
  The invariant of the inner loop. \<open>H\<close> is the store when the outer loop reached the
  element, \<open>done\<close> the certificates decoded so far, \<open>emitted\<close> the copies of \<^verbatim>\<open>invC\<close>
  appended so far. The three maps of \<^verbatim>\<open>invC\<close> are the ones allocated for this element and hold
  the keys of \<open>done\<close>; the store below \<open>H\<close>'s arrays is untouched; the \<open>j\<close>-th copy has
  length \<open>j + 1\<close> and reads the first \<open>j + 1\<close> certificates.
\<close>

definition slot_inv ::
  "heap \<Rightarrow> heap \<Rightarrow> CertStoreInventory \<Rightarrow> InventoriedCertificate list \<Rightarrow>
   CertStoreInventory list \<Rightarrow> bool" where
  "slot_inv H h invC done emitted \<longleftrightarrow>
     Thumbprints invC = length (strmaps H)
   \<and> Serials invC = Suc (length (strmaps H))
   \<and> Ids invC = length (intmaps H)
   \<and> strmaps h = strmaps H @ [mark_all Thumbprint done, mark_all SerialNumber done]
   \<and> intmaps h = intmaps H @ [mark_all Id_cert done]
   \<and> take (length (arrays H)) (arrays h) = arrays H
   \<and> valid_slice (length (arrays H)) h (Certificates invC)
   \<and> slice_elems h (Certificates invC) = done
   \<and> length emitted = length done
   \<and> (\<forall>j < length emitted.
          emitted ! j = invC\<lparr>Certificates := Certificates (emitted ! j)\<rparr>
        \<and> s_len (Certificates (emitted ! j)) = Suc j
        \<and> length (arrays H) \<le> s_array (Certificates (emitted ! j))
        \<and> s_array (Certificates (emitted ! j)) < length (arrays h)
        \<and> slice_elems h (Certificates (emitted ! j)) = take (Suc j) done)"

text \<open>A later store extends an earlier one: what was allocated is still there, unchanged.\<close>

definition heap_extends :: "heap \<Rightarrow> heap \<Rightarrow> bool" where
  "heap_extends h h' \<longleftrightarrow>
     prefix (arrays h) (arrays h') \<and> prefix (strmaps h) (strmaps h')
     \<and> prefix (intmaps h) (intmaps h')"

definition allocated :: "heap \<Rightarrow> CertStoreInventory \<Rightarrow> bool" where
  "allocated h t \<longleftrightarrow>
     s_array (Certificates t) < length (arrays h) \<and> Thumbprints t < length (strmaps h)
     \<and> Serials t < length (strmaps h) \<and> Ids t < length (intmaps h)"

section \<open>Fixtures for the worked instances\<close>

text \<open>
  Stand-ins for the collaborators, used where a result is run on a concrete input: a JSON
  decoder and an encoder that each know a few texts, and a transport that answers every
  request with the response it is given and records the request in the world.
\<close>

definition table_Unmarshal :: "string \<Rightarrow> error + anyval" where
  \<open>table_Unmarshal text =
     (if text = ''{"host":"a"}'' then Inr (AnyMap [(''host'', AnyString ''a'')])
      else if text = ''{"port":1}'' then Inr (AnyMap [(''port'', AnyFloat64 1)])
      else if text = ''[]'' then Inr (AnySlice [])
      else Inl (ErrorString ''invalid character''))\<close>

definition table_Marshal :: "anyval \<Rightarrow> error + string" where
  \<open>table_Marshal v =
     (if v = AnyMap [] then Inr ''{}''
      else if v = AnyMap [(''host'', AnyMap [(''value'', AnyString ''a'')])]
        then Inr ''{"host":{"value":"a"}}''
      else Inl (ErrorString ''unsupported value''))\<close>

definition recording_transport :: "response \<Rightarrow> ('p, 'p request list) transport" where
  "recording_transport resp req sent = (Inr resp, sent @ [req])"

definition unit_Decode :: "string \<Rightarrow> error + unit" where
  "unit_Decode body = Inr ()"

definition host_args :: StoreFctArgs where
  "host_args = \<lparr>ClientMachine = ''web01'', StorePath = ''/etc/ssl'', AgentId = ''agent-1'',
                 Properties = [(''host'', ''a'')], PropertiesString = ''''\<rparr>"

definition bare_args :: StoreFctArgs where
  "bare_args = \<lparr>ClientMachine = ''web01'', StorePath = ''/etc/ssl'', AgentId = ''agent-1'',
                 Properties = [], PropertiesString = ''''\<rparr>"

text \<open>
  Inventory payloads: an element holding the two certificates \<open>A\<close> and \<open>B\<close>, one holding
  \<open>A\<close> alone, one holding none; a decoder of response bodies that knows four bodies; a
  runtime that doubles the capacity of a full slice; and what the decoder returns for the
  two-certificate element.
\<close>

definition json_cert_A :: anyval where
  "json_cert_A = AnyMap
     [(''Id'', AnyFloat64 1), (''IssuedDN'', AnyString ''CN=a''),
      (''SerialNumber'', AnyString ''01''), (''NotBefore'', AnyString ''2024-01-01''),
      (''NotAfter'', AnyString ''2025-01-01''), (''SigningAlgorithm'', AnyString ''SHA256RSA''),
      (''IssuerDN'', AnyString ''CN=ca''), (''Thumbprint'', AnyString ''AA''),
      (''CertStoreInventoryItemId'', AnyFloat64 7)]"

definition json_cert_B :: anyval where
  "json_cert_B = AnyMap
     [(''Id'', AnyFloat64 2), (''IssuedDN'', AnyString ''CN=b''),
      (''SerialNumber'', AnyString ''02''), (''NotBefore'', AnyString ''2024-01-01''),
      (''NotAfter'', AnyString ''2025-01-01''), (''SigningAlgorithm'', AnyString ''SHA256RSA''),
      (''IssuerDN'', AnyString ''CN=ca''), (''Thumbprint'', AnyString ''BB''),
      (''CertStoreInventoryItemId'', AnyFloat64 7)]"

definition cert_A :: InventoriedCertificate where
  "cert_A = \<lparr>Id_cert = 1, IssuedDN = ''CN=a'', SerialNumber = ''01'',
              NotBefore = ''2024-01-01'', NotAfter = ''2025-01-01'',
              SigningAlgorithm = ''SHA256RSA'', IssuerDN = ''CN=ca'', Thumbprint = ''AA'',
              CertStoreInventoryItemId_cert = 7\<rparr>"

definition cert_B :: InventoriedCertificate where
  "cert_B = \<lparr>Id_cert = 2, IssuedDN = ''CN=b'', SerialNumber = ''02'',
              NotBefore = ''2024-01-01'', NotAfter = ''2025-01-01'',
              SigningAlgorithm = ''SHA256RSA'', IssuerDN = ''CN=ca'', Thumbprint = ''BB'',
              CertStoreInventoryItemId_cert = 7\<rparr>"

definition element_AB :: anyval where
  "element_AB = AnyMap
     [(''Name'', AnyString ''chain''), (''CertStoreInventoryItemId'', AnyFloat64 7),
      (''Certificates'', AnySlice [json_cert_A, json_cert_B])]"

definition element_A :: anyval where
  "element_A = AnyMap
     [(''Name'', AnyString ''leaf''), (''CertStoreInventoryItemId'', AnyFloat64 8),
      (''Certificates'', AnySlice [json_cert_A])]"

definition element_none :: anyval where
  "element_none = AnyMap
     [(''Name'', AnyString ''vacant''), (''CertStoreInventoryItemId'', AnyFloat64 9),
      (''Certificates'', AnySlice [])]"

definition table_Decode :: "string \<Rightarrow> error + anyval list" where
  "table_Decode body =
     (if body = ''chain'' then Inr [element_AB]
      else if body = ''leaf'' then Inr [element_A]
      else if body = ''vacant'' then Inr [element_none]
      else if body = ''mixed'' then Inr [element_A, element_none, element_AB]
      else Inl (ErrorString ''invalid character''))"

definition doubling :: "nat \<Rightarrow> nat" where
  "doubling c = 2 * c"

definition empty_heap :: heap where
  "empty_heap = \<lparr>arrays = [], strmaps = [], intmaps = []\<rparr>"

definition inventory_request :: "string \<Rightarrow> unit request" where
  "inventory_request storeId =
     \<lparr>Method = ''GET'', Endpoint = ''CertificateStores/'' @ storeId @ ''/Inventory'',
      Headers = keyfactor_headers, Payload = None\<rparr>"

definition chain_entry_1 :: CertStoreInventory where
  "chain_entry_1 = \<lparr>Name = ''chain'', CertStoreInventoryItemId = 7,
       Certificates = \<lparr>s_array = 0, s_len = 1, s_cap = 1\<rparr>, Parameters = [],
       Thumbprints = 0, Serials = 1, Ids = 0\<rparr>"

definition chain_entry_2 :: CertStoreInventory where
  "chain_entry_2 = \<lparr>Name = ''chain'', CertStoreInventoryItemId = 7,
       Certificates = \<lparr>s_array = 1, s_len = 2, s_cap = 2\<rparr>, Parameters = [],
       Thumbprints = 0, Serials = 1, Ids = 0\<rparr>"

definition chain_heap :: heap where
  "chain_heap = \<lparr>arrays = [[cert_A], [cert_A, cert_B]],
                  strmaps = [[(''AA'', True), (''BB'', True)], [(''01'', True), (''02'', True)]],
                  intmaps = [[(1, True), (2, True)]]\<rparr>"

section \<open>Decoding properties\<close>

lemma range_tempInterface_map_of:
  "range_tempInterface kvs acc = Some r \<Longrightarrow> distinct (map fst kvs) \<Longrightarrow>
   map_of r k = (case map_of kvs k of None \<Rightarrow> map_of acc k | Some v \<Rightarrow> assert_string v)"
proof (induction kvs arbitrary: acc)
  case Nil
  then show ?case by simp
next
  case (Cons kv kvs)
  obtain k0 v0 where kv: "kv = (k0, v0)" by (cases kv)
  from Cons.prems(1) kv obtain s where s: "assert_string v0 = Some s"
    and rest: "range_tempInterface kvs (AList.update k0 s acc) = Some r"
    by (auto split: bind_splits)
  from Cons.prems(2) kv have d: "distinct (map fst kvs)" and fresh: "map_of kvs k0 = None"
    by (auto simp: map_of_eq_None_iff)
  from Cons.IH [OF rest d] fresh s kv show ?case
    by (auto simp: update_conv' split: option.splits)
qed

lemma range_tempInterface_distinct:
  "range_tempInterface kvs acc = Some r \<Longrightarrow> distinct (map fst acc) \<Longrightarrow> distinct (map fst r)"
proof (induction kvs arbitrary: acc)
  case Nil
  then show ?case by simp
next
  case (Cons kv kvs)
  then show ?case
    by (cases kv) (auto split: bind_splits simp: distinct_update)
qed

lemma range_tempInterface_returns:
  "\<forall>v \<in> snd ` set kvs. assert_string v \<noteq> None \<Longrightarrow> range_tempInterface kvs acc \<noteq> None"
  by (induction kvs arbitrary: acc) (auto split: bind_splits)

lemma range_tempInterface_panics:
  "(k, v) \<in> set kvs \<Longrightarrow> assert_string v = None \<Longrightarrow> range_tempInterface kvs acc = None"
  by (induction kvs arbitrary: acc) (auto split: bind_splits)

text \<open>
  C3. Let \<open>m\<close> be a PropertyMap and let the input be its flat wire form: a non-empty text
  that \<^verbatim>\<open>json.Unmarshal\<close> decodes to the object whose entries (each key once, in any order)
  map every property name of \<open>m\<close> to its value as a JSON string, and nothing else. Then
  \<^verbatim>\<open>unmarshalPropertiesString\<close> returns, and the map it returns has the keys and values of
  \<open>m\<close>. (This holds for the empty \<open>m\<close> too; its flat form is \<^verbatim>\<open>{}\<close>.)
\<close>

theorem unmarshalPropertiesString_flat_form:
  assumes parsed: "json_Unmarshal properties = Inr (AnyMap entries)"
    and nonempty: "properties \<noteq> ''''"
    and keys: "distinct (map fst entries)"
    and flat: "\<And>name. map_of entries name = map_option AnyString (map_of m name)"
  shows "\<exists>newMap. unmarshalPropertiesString json_Unmarshal properties = Some newMap
           \<and> distinct (map fst newMap) \<and> map_of newMap = map_of m"
proof -
  have strings: "\<forall>v \<in> snd ` set entries. assert_string v \<noteq> None"
  proof
    fix v assume "v \<in> snd ` set entries"
    then obtain k where "(k, v) \<in> set entries" by auto
    with keys have "map_of entries k = Some v" by simp
    with flat [of k] show "assert_string v \<noteq> None" by (cases "map_of m k") auto
  qed
  then obtain newMap where run: "range_tempInterface entries [] = Some newMap"
    using range_tempInterface_returns [of entries "[]"] by auto
  have "map_of newMap name = map_of m name" for name
    using range_tempInterface_map_of [OF run keys, of name] flat [of name]
    by (cases "map_of m name") auto
  then have "map_of newMap = map_of m" by (rule ext)
  moreover have "distinct (map fst newMap)"
    using range_tempInterface_distinct [OF run] by simp
  ultimately show ?thesis
    using parsed nonempty run by (simp add: unmarshalPropertiesString_def)
qed

theorem unmarshalPropertiesString_flat_form_witness:
  \<open>table_Unmarshal ''{"host":"a"}'' = Inr (AnyMap [(''host'', AnyString ''a'')])
   \<and> ''{"host":"a"}'' \<noteq> ''''
   \<and> distinct (map fst [(''host'', AnyString ''a'')])
   \<and> (\<exists>newMap. unmarshalPropertiesString table_Unmarshal ''{"host":"a"}'' = Some newMap
          \<and> distinct (map fst newMap) \<and> map_of newMap = map_of [(''host'', ''a'')])\<close>
proof -
  have h1: \<open>table_Unmarshal ''{"host":"a"}'' = Inr (AnyMap [(''host'', AnyString ''a'')])\<close>
    by (simp add: table_Unmarshal_def)
  have h2: \<open>''{"host":"a"}'' \<noteq> ''''\<close> by simp
  have h3: "distinct (map fst [(''host'', AnyString ''a'')])" by simp
  have h4: "map_of [(''host'', AnyString ''a'')] name
              = map_option AnyString (map_of [(''host'', ''a'')] name)" for name
    by simp
  from unmarshalPropertiesString_flat_form
         [where json_Unmarshal = table_Unmarshal and properties = \<open>''{"host":"a"}''\<close>,
          OF h1 h2 h3 h4] h1 h2 h3
  show ?thesis by blast
qed

text \<open>
  C4. \<^verbatim>\<open>unmarshalPropertiesString\<close> returns the empty PropertyMap for the empty input, and it
  returns the empty PropertyMap, not the error, for every input on which \<^verbatim>\<open>json.Unmarshal\<close>
  reports an error.
\<close>

theorem unmarshalPropertiesString_lenient:
  "unmarshalPropertiesString json_Unmarshal '''' = Some [] \<and>
   (json_Unmarshal properties = Inl err \<longrightarrow>
      unmarshalPropertiesString json_Unmarshal properties = Some [])"
  by (simp add: unmarshalPropertiesString_def)

theorem unmarshalPropertiesString_lenient_witness:
  "unmarshalPropertiesString table_Unmarshal '''' = Some []
   \<and> table_Unmarshal ''{'' = Inl (ErrorString ''invalid character'')
   \<and> unmarshalPropertiesString table_Unmarshal ''{'' = Some []"
proof -
  have h: "table_Unmarshal ''{'' = Inl (ErrorString ''invalid character'')"
    by (simp add: table_Unmarshal_def)
  from unmarshalPropertiesString_lenient
         [of table_Unmarshal "''{''" "ErrorString ''invalid character''"] h
  show ?thesis by blast
qed

text \<open>
  C5. When the input is a non-empty text that \<^verbatim>\<open>json.Unmarshal\<close> decodes to an object, and
  some entry of the object has a value that is not a string, \<^verbatim>\<open>unmarshalPropertiesString\<close>
  returns no PropertyMap at all: the assertion \<^verbatim>\<open>value.(string)\<close> panics.
\<close>

theorem unmarshalPropertiesString_non_string_value:
  assumes "json_Unmarshal properties = Inr (AnyMap entries)"
    and "properties \<noteq> ''''"
    and "(key, v) \<in> set entries"
    and "assert_string v = None"
  shows "unmarshalPropertiesString json_Unmarshal properties = None"
  using assms range_tempInterface_panics [of key v entries "[]"]
  by (simp add: unmarshalPropertiesString_def)

theorem unmarshalPropertiesString_non_string_value_witness:
  \<open>table_Unmarshal ''{"port":1}'' = Inr (AnyMap [(''port'', AnyFloat64 1)])
   \<and> assert_string (AnyFloat64 1) = None
   \<and> unmarshalPropertiesString table_Unmarshal ''{"port":1}'' = None\<close>
proof -
  have h1: \<open>table_Unmarshal ''{"port":1}'' = Inr (AnyMap [(''port'', AnyFloat64 1)])\<close>
    by (simp add: table_Unmarshal_def)
  have h2: \<open>''{"port":1}'' \<noteq> ''''\<close> by simp
  have h3: "(''port'', AnyFloat64 1) \<in> set [(''port'', AnyFloat64 1)]" by simp
  have h4: "assert_string (AnyFloat64 1) = None" by simp
  from unmarshalPropertiesString_non_string_value
         [where json_Unmarshal = table_Unmarshal and properties = \<open>''{"port":1}''\<close>,
          OF h1 h2 h3 h4] h1 h4
  show ?thesis by blast
qed

text \<open>
  C10. When the input is a non-empty text that \<^verbatim>\<open>json.Unmarshal\<close> decodes without error to a
  value that is not an object (an array, say), \<^verbatim>\<open>unmarshalPropertiesString\<close> returns
  neither a PropertyMap nor an error: the unchecked assertion
  \<^verbatim>\<open>tempInterface.(map[string]interface{})\<close> panics. The empty-map leniency covers only the
  inputs the decoder rejects.
\<close>

theorem unmarshalPropertiesString_non_object:
  assumes "json_Unmarshal properties = Inr v"
    and "properties \<noteq> ''''"
    and "assert_map v = None"
  shows "unmarshalPropertiesString json_Unmarshal properties = None"
  using assms by (simp add: unmarshalPropertiesString_def)

theorem unmarshalPropertiesString_non_object_witness:
  "table_Unmarshal ''[]'' = Inr (AnySlice [])
   \<and> ''[]'' \<noteq> ''''
   \<and> assert_map (AnySlice []) = None
   \<and> unmarshalPropertiesString table_Unmarshal ''[]'' = None"
proof -
  have h1: "table_Unmarshal ''[]'' = Inr (AnySlice [])"
    by (simp add: table_Unmarshal_def)
  have h2: "''[]'' \<noteq> ''''" by simp
  have h3: "assert_map (AnySlice []) = None" by simp
  from unmarshalPropertiesString_non_object
         [where json_Unmarshal = table_Unmarshal and properties = "''[]''", OF h1 h2 h3]
       h1 h2 h3
  show ?thesis by blast
qed

section \<open>Encoding properties\<close>

lemma fold_update_map_of:
  "distinct (map fst props) \<Longrightarrow>
   map_of (fold (\<lambda>(key, value) acc. AList.update key (f value) acc) props acc0) k =
     (case map_of props k of None \<Rightarrow> map_of acc0 k | Some v \<Rightarrow> Some (f v))"
proof (induction props arbitrary: acc0)
  case Nil
  then show ?case by simp
next
  case (Cons p props)
  obtain k0 v0 where p: "p = (k0, v0)" by (cases p)
  from Cons.prems p have d: "distinct (map fst props)" and fresh: "map_of props k0 = None"
    by (auto simp: map_of_eq_None_iff)
  from Cons.IH [OF d, of "AList.update k0 (f v0) acc0"] fresh p show ?case
    by (auto simp: update_conv' split: option.splits)
qed

lemma fold_update_distinct:
  "distinct (map fst acc0) \<Longrightarrow>
   distinct (map fst (fold (\<lambda>(key, value) acc. AList.update key (f value) acc) props acc0))"
  by (induction props arbitrary: acc0) (auto simp: distinct_update)

text \<open>
  C6. Let the arguments pass validation, carry no pre-built \<^verbatim>\<open>PropertiesString\<close>, and hold
  a PropertyMap (each name once). Then \<^verbatim>\<open>buildPropertiesInterface\<close> gives a JSON object
  that maps exactly the property names, each to the one-field object
  \<^verbatim>\<open>{"value": <its string value>}\<close>; and when \<^verbatim>\<open>json.Marshal\<close> serializes that object to a
  string, \<^verbatim>\<open>CreateStore\<close> and \<^verbatim>\<open>UpdateStore\<close> store this string in \<^verbatim>\<open>PropertiesString\<close>, the
  field the request payload carries. For the empty PropertyMap the object is the empty
  object, so the string is \<^verbatim>\<open>{}\<close> as soon as \<^verbatim>\<open>json.Marshal\<close> writes the empty object so
  (which Go's does).
\<close>

theorem properties_write_encoding:
  assumes valid: "ClientMachine ca \<noteq> ''''" "StorePath ca \<noteq> ''''" "AgentId ca \<noteq> ''''"
    and unset: "PropertiesString ca = ''''"
    and keys: "distinct (map fst (Properties ca))"
    and marshalled: "json_Marshal (buildPropertiesInterface (Properties ca)) = Inr propertiesJson"
  shows "(\<exists>entries. buildPropertiesInterface (Properties ca) = AnyMap entries
            \<and> distinct (map fst entries)
            \<and> (\<forall>name. map_of entries name =
                   map_option (\<lambda>value. AnyMap [(''value'', AnyString value)])
                     (map_of (Properties ca) name)))
       \<and> fst (snd (CreateStore json_Marshal sendRequest json_Decode ca w))
           = ca\<lparr>PropertiesString := propertiesJson\<rparr>
       \<and> fst (snd (UpdateStore json_Marshal sendRequest json_Decode ca w))
           = ca\<lparr>PropertiesString := propertiesJson\<rparr>
       \<and> (Properties ca = [] \<longrightarrow> buildPropertiesInterface (Properties ca) = AnyMap [])
       \<and> (Properties ca = [] \<longrightarrow> json_Marshal (AnyMap []) = Inr ''{}'' \<longrightarrow>
            propertiesJson = ''{}'')"
proof -
  let ?entries = "fold (\<lambda>(key, value) acc.
       AList.update key (AnyMap (AList.update ''value'' (AnyString value) [])) acc)
     (Properties ca) []"
  have "map_of ?entries name =
      map_option (\<lambda>value. AnyMap [(''value'', AnyString value)]) (map_of (Properties ca) name)"
    for name
    using fold_update_map_of
      [OF keys, of "\<lambda>value. AnyMap (AList.update ''value'' (AnyString value) [])" "[]" name]
    by (cases "map_of (Properties ca) name") simp_all
  moreover have "distinct (map fst ?entries)"
    by (rule fold_update_distinct) simp
  ultimately have shape: "\<exists>entries. buildPropertiesInterface (Properties ca) = AnyMap entries
            \<and> distinct (map fst entries)
            \<and> (\<forall>name. map_of entries name =
                   map_option (\<lambda>value. AnyMap [(''value'', AnyString value)])
                     (map_of (Properties ca) name))"
    unfolding buildPropertiesInterface_def by blast
  have create: "fst (snd (CreateStore json_Marshal sendRequest json_Decode ca w))
           = ca\<lparr>PropertiesString := propertiesJson\<rparr>"
    using valid unset marshalled
    by (simp add: CreateStore_def validateCreateStoreArgs_def split: prod.splits sum.splits)
  have update: "fst (snd (UpdateStore json_Marshal sendRequest json_Decode ca w))
           = ca\<lparr>PropertiesString := propertiesJson\<rparr>"
    using valid unset marshalled
    by (simp add: UpdateStore_def validateUpdateStoreArgs_def split: prod.splits sum.splits)
  have empty_object:
    "Properties ca = [] \<longrightarrow> buildPropertiesInterface (Properties ca) = AnyMap []"
    by (simp add: buildPropertiesInterface_def)
  have empty_text: "Properties ca = [] \<longrightarrow> json_Marshal (AnyMap []) = Inr ''{}'' \<longrightarrow>
            propertiesJson = ''{}''"
    using marshalled by (auto simp: buildPropertiesInterface_def)
  from shape create update empty_object empty_text show ?thesis by blast
qed

theorem properties_write_encoding_witness:
  \<open>fst (snd (CreateStore table_Marshal
               (recording_transport \<lparr>StatusCode = 200, Body = ''{}''\<rparr>) unit_Decode
               host_args []))
     = host_args\<lparr>PropertiesString := ''{"host":{"value":"a"}}''\<rparr>
   \<and> fst (snd (UpdateStore table_Marshal
               (recording_transport \<lparr>StatusCode = 200, Body = ''{}''\<rparr>) unit_Decode
               bare_args []))
     = bare_args\<lparr>PropertiesString := ''{}''\<rparr>
   \<and> buildPropertiesInterface (Properties bare_args) = AnyMap []\<close>
proof -
  have a1: "ClientMachine host_args \<noteq> ''''" "StorePath host_args \<noteq> ''''"
    "AgentId host_args \<noteq> ''''" "PropertiesString host_args = ''''"
    "distinct (map fst (Properties host_args))"
    by (simp_all add: host_args_def)
  have a2: \<open>table_Marshal (buildPropertiesInterface (Properties host_args))
              = Inr ''{"host":{"value":"a"}}''\<close>
    by (simp add: host_args_def buildPropertiesInterface_def table_Marshal_def)
  have b1: "ClientMachine bare_args \<noteq> ''''" "StorePath bare_args \<noteq> ''''"
    "AgentId bare_args \<noteq> ''''" "PropertiesString bare_args = ''''"
    "distinct (map fst (Properties bare_args))" "Properties bare_args = []"
    by (simp_all add: bare_args_def)
  have b2: "table_Marshal (buildPropertiesInterface (Properties bare_args)) = Inr ''{}''"
    by (simp add: bare_args_def buildPropertiesInterface_def table_Marshal_def)
  note host = properties_write_encoding
    [where ca = host_args and json_Marshal = table_Marshal and json_Decode = unit_Decode
       and w = "[]"
       and sendRequest = "recording_transport \<lparr>StatusCode = 200, Body = ''{}''\<rparr>",
     OF a1(1) a1(2) a1(3) a1(4) a1(5) a2]
  note bare = properties_write_encoding
    [where ca = bare_args and json_Marshal = table_Marshal and json_Decode = unit_Decode
       and w = "[]"
       and sendRequest = "recording_transport \<lparr>StatusCode = 200, Body = ''{}''\<rparr>",
     OF b1(1) b1(2) b1(3) b1(4) b1(5) b2]
  from host have c1: \<open>fst (snd (CreateStore table_Marshal
               (recording_transport \<lparr>StatusCode = 200, Body = ''{}''\<rparr>) unit_Decode
               host_args []))
     = host_args\<lparr>PropertiesString := ''{"host":{"value":"a"}}''\<rparr>\<close>
    by blast
  from bare have c2: \<open>fst (snd (UpdateStore table_Marshal
               (recording_transport \<lparr>StatusCode = 200, Body = ''{}''\<rparr>) unit_Decode
               bare_args []))
     = bare_args\<lparr>PropertiesString := ''{}''\<rparr>\<close>
    by blast
  from bare b1(6) have c3: "buildPropertiesInterface (Properties bare_args) = AnyMap []"
    by blast
  from c1 c2 c3 show ?thesis by blast
qed

section \<open>Validation and the delete status\<close>

text \<open>
  C7. When the client machine, the store path or the orchestrator agent id of the argument
  record is the empty string, \<^verbatim>\<open>CreateStore\<close> and \<^verbatim>\<open>UpdateStore\<close> return the error of the first
  missing field (in that order); the three messages differ from one another; and the
  transport is not invoked: whatever the transport is, the world and the argument record are
  returned as they were given.
\<close>

theorem store_args_validation:
  assumes "ClientMachine ca = '''' \<or> StorePath ca = '''' \<or> AgentId ca = ''''"
  shows "\<exists>msg.
      msg = (if ClientMachine ca = '''' then
               ''client machine is required for creation of new certificate store''
             else if StorePath ca = '''' then
               ''store path is required for creation of new certificate store''
             else ''orchestrator agent id is required for creation of new certificate store'')
    \<and> CreateStore json_Marshal sendRequest json_Decode ca w = (Inl (ErrorString msg), ca, w)
    \<and> UpdateStore json_Marshal sendRequest json_Decode ca w = (Inl (ErrorString msg), ca, w)
    \<and> ''client machine is required for creation of new certificate store''
        \<noteq> ''store path is required for creation of new certificate store''
    \<and> ''client machine is required for creation of new certificate store''
        \<noteq> ''orchestrator agent id is required for creation of new certificate store''
    \<and> ''store path is required for creation of new certificate store''
        \<noteq> ''orchestrator agent id is required for creation of new certificate store''"
  using assms
  by (auto simp: CreateStore_def UpdateStore_def validateCreateStoreArgs_def
      validateUpdateStoreArgs_def)

theorem store_args_validation_witness:
  "CreateStore table_Marshal (recording_transport \<lparr>StatusCode = 200, Body = ''{}''\<rparr>)
     unit_Decode (host_args\<lparr>ClientMachine := '''', AgentId := ''''\<rparr>) []
     = (Inl (ErrorString ''client machine is required for creation of new certificate store''),
        host_args\<lparr>ClientMachine := '''', AgentId := ''''\<rparr>, [])
   \<and> UpdateStore table_Marshal (recording_transport \<lparr>StatusCode = 200, Body = ''{}''\<rparr>)
     unit_Decode (host_args\<lparr>StorePath := ''''\<rparr>) []
     = (Inl (ErrorString ''store path is required for creation of new certificate store''),
        host_args\<lparr>StorePath := ''''\<rparr>, [])
   \<and> CreateStore table_Marshal (recording_transport \<lparr>StatusCode = 200, Body = ''{}''\<rparr>)
     unit_Decode (host_args\<lparr>AgentId := ''''\<rparr>) []
     = (Inl (ErrorString
          ''orchestrator agent id is required for creation of new certificate store''),
        host_args\<lparr>AgentId := ''''\<rparr>, [])"
proof -
  have m1: "ClientMachine (host_args\<lparr>ClientMachine := '''', AgentId := ''''\<rparr>) = ''''"
    by simp
  have m2: "StorePath (host_args\<lparr>StorePath := ''''\<rparr>) = ''''"
    "ClientMachine (host_args\<lparr>StorePath := ''''\<rparr>) \<noteq> ''''"
    by (simp_all add: host_args_def)
  have m3: "AgentId (host_args\<lparr>AgentId := ''''\<rparr>) = ''''"
    "ClientMachine (host_args\<lparr>AgentId := ''''\<rparr>) \<noteq> ''''"
    "StorePath (host_args\<lparr>AgentId := ''''\<rparr>) \<noteq> ''''"
    by (simp_all add: host_args_def)
  from store_args_validation
    [where ca = "host_args\<lparr>ClientMachine := '''', AgentId := ''''\<rparr>"
       and json_Marshal = table_Marshal and json_Decode = unit_Decode and w = "[]"
       and sendRequest = "recording_transport \<lparr>StatusCode = 200, Body = ''{}''\<rparr>"] m1
  have c1: "CreateStore table_Marshal (recording_transport \<lparr>StatusCode = 200, Body = ''{}''\<rparr>)
     unit_Decode (host_args\<lparr>ClientMachine := '''', AgentId := ''''\<rparr>) []
     = (Inl (ErrorString ''client machine is required for creation of new certificate store''),
        host_args\<lparr>ClientMachine := '''', AgentId := ''''\<rparr>, [])"
    by simp
  from store_args_validation
    [where ca = "host_args\<lparr>StorePath := ''''\<rparr>"
       and json_Marshal = table_Marshal and json_Decode = unit_Decode and w = "[]"
       and sendRequest = "recording_transport \<lparr>StatusCode = 200, Body = ''{}''\<rparr>"] m2
  have c2: "UpdateStore table_Marshal (recording_transport \<lparr>StatusCode = 200, Body = ''{}''\<rparr>)
     unit_Decode (host_args\<lparr>StorePath := ''''\<rparr>) []
     = (Inl (ErrorString ''store path is required for creation of new certificate store''),
        host_args\<lparr>StorePath := ''''\<rparr>, [])"
    by simp
  from store_args_validation
    [where ca = "host_args\<lparr>AgentId := ''''\<rparr>"
       and json_Marshal = table_Marshal and json_Decode = unit_Decode and w = "[]"
       and sendRequest = "recording_transport \<lparr>StatusCode = 200, Body = ''{}''\<rparr>"] m3
  have c3: "CreateStore table_Marshal (recording_transport \<lparr>StatusCode = 200, Body = ''{}''\<rparr>)
     unit_Decode (host_args\<lparr>AgentId := ''''\<rparr>) []
     = (Inl (ErrorString
          ''orchestrator agent id is required for creation of new certificate store''),
        host_args\<lparr>AgentId := ''''\<rparr>, [])"
    by simp
  from c1 c2 c3 show ?thesis by blast
qed

text \<open>
  C8. When the transport answers the DELETE request with a response, \<^verbatim>\<open>DeleteCertificateStore\<close>
  returns no error if the status code is 204, and otherwise the error whose message is
  \<^verbatim>\<open>[ERROR] Something unexpected happened, DELETE call to CertificateStores/<id> returned
  status <code>\<close>: it contains the method, the endpoint and the status code in decimal.
\<close>

theorem DeleteCertificateStore_status:
  assumes "sendRequest \<lparr>Method = ''DELETE'', Endpoint = ''CertificateStores/'' @ storeId,
             Headers = keyfactor_headers, Payload = None\<rparr> w = (Inr resp, w')"
  shows "DeleteCertificateStore sendRequest storeId w =
           (if StatusCode resp = 204 then None
            else Some (ErrorString (''[ERROR] Something unexpected happened, '' @ ''DELETE''
                   @ '' call to '' @ (''CertificateStores/'' @ storeId)
                   @ '' returned status '' @ Sprintf_d (StatusCode resp))), w')
       \<and> sublist ''DELETE''
            (''[ERROR] Something unexpected happened, '' @ ''DELETE''
             @ '' call to '' @ (''CertificateStores/'' @ storeId)
             @ '' returned status '' @ Sprintf_d (StatusCode resp))
       \<and> sublist (''CertificateStores/'' @ storeId)
            (''[ERROR] Something unexpected happened, '' @ ''DELETE''
             @ '' call to '' @ (''CertificateStores/'' @ storeId)
             @ '' returned status '' @ Sprintf_d (StatusCode resp))
       \<and> sublist (Sprintf_d (StatusCode resp))
            (''[ERROR] Something unexpected happened, '' @ ''DELETE''
             @ '' call to '' @ (''CertificateStores/'' @ storeId)
             @ '' returned status '' @ Sprintf_d (StatusCode resp))"
proof -
  have run: "DeleteCertificateStore sendRequest storeId w =
           (if StatusCode resp = 204 then None
            else Some (ErrorString (''[ERROR] Something unexpected happened, '' @ ''DELETE''
                   @ '' call to '' @ (''CertificateStores/'' @ storeId)
                   @ '' returned status '' @ Sprintf_d (StatusCode resp))), w')"
    using assms by (simp add: DeleteCertificateStore_def StatusNoContent_def Let_def)
  have s1: "sublist m (a @ m @ b @ e @ c @ d)" for a m b e c d :: string
    by (rule sublist_appendI)
  have s2: "sublist e (a @ m @ b @ e @ c @ d)" for a m b e c d :: string
    using sublist_appendI [of e "a @ m @ b" "c @ d"] by simp
  have s3: "sublist d (a @ m @ b @ e @ c @ d)" for a m b e c d :: string
    using sublist_append_leftI [of d "a @ m @ b @ e @ c"] by simp
  from run s1 s2 s3 show ?thesis by blast
qed

theorem DeleteCertificateStore_status_witness:
  "DeleteCertificateStore (recording_transport \<lparr>StatusCode = 500, Body = ''''\<rparr>) ''42''
       ([] :: unit request list)
     = (Some (ErrorString
          ''[ERROR] Something unexpected happened, DELETE call to CertificateStores/42 returned status 500''),
        [\<lparr>Method = ''DELETE'', Endpoint = ''CertificateStores/42'',
          Headers = keyfactor_headers, Payload = None\<rparr>])
   \<and> DeleteCertificateStore (recording_transport \<lparr>StatusCode = 204, Body = ''''\<rparr>) ''42''
       ([] :: unit request list)
     = (None,
        [\<lparr>Method = ''DELETE'', Endpoint = ''CertificateStores/42'',
          Headers = keyfactor_headers, Payload = None\<rparr>])"
proof -
  have sent: "recording_transport r
      \<lparr>Method = ''DELETE'', Endpoint = ''CertificateStores/'' @ ''42'',
       Headers = keyfactor_headers, Payload = None\<rparr> ([] :: unit request list)
    = (Inr r, [\<lparr>Method = ''DELETE'', Endpoint = ''CertificateStores/42'',
          Headers = keyfactor_headers, Payload = None\<rparr>])" for r
    by (simp add: recording_transport_def)
  have d: "Sprintf_d 500 = ''500''"
    by (simp add: Sprintf_d_def decimal.simps)
  from DeleteCertificateStore_status
    [where sendRequest = "recording_transport \<lparr>StatusCode = 500, Body = ''''\<rparr>"
       and storeId = "''42''" and w = "[] :: unit request list", OF sent] d
  have c1: "DeleteCertificateStore (recording_transport \<lparr>StatusCode = 500, Body = ''''\<rparr>)
       ''42'' ([] :: unit request list)
     = (Some (ErrorString
          ''[ERROR] Something unexpected happened, DELETE call to CertificateStores/42 returned status 500''),
        [\<lparr>Method = ''DELETE'', Endpoint = ''CertificateStores/42'',
          Headers = keyfactor_headers, Payload = None\<rparr>])"
    by simp
  from DeleteCertificateStore_status
    [where sendRequest = "recording_transport \<lparr>StatusCode = 204, Body = ''''\<rparr>"
       and storeId = "''42''" and w = "[] :: unit request list", OF sent]
  have c2: "DeleteCertificateStore (recording_transport \<lparr>StatusCode = 204, Body = ''''\<rparr>)
       ''42'' ([] :: unit request list)
     = (None,
        [\<lparr>Method = ''DELETE'', Endpoint = ''CertificateStores/42'',
          Headers = keyfactor_headers, Payload = None\<rparr>])"
    by simp
  from c1 c2 show ?thesis by blast
qed

section \<open>The inventory decoder: store reasoning\<close>

subsection \<open>Slices\<close>

lemma iCert_literal_fields:
  assumes "iCert_literal cert = Some c"
  shows "field_string cert ''Thumbprint'' = Some (Thumbprint c)"
    and "field_string cert ''SerialNumber'' = Some (SerialNumber c)"
    and "\<exists>f. field_float64 cert ''Id'' = Some f \<and> int_of_float64 f = Id_cert c"
  using assms by (auto simp: iCert_literal_def split: bind_splits)

lemma length_slice_elems:
  "valid_slice base h s \<Longrightarrow> length (slice_elems h s) = s_len s"
  by (auto simp: valid_slice_def slice_elems_def)

lemma valid_empty_slice: "valid_slice base h empty_slice"
  by (simp add: valid_slice_def empty_slice_def)

lemma slice_elems_empty_slice: "slice_elems h empty_slice = []"
  by (simp add: slice_elems_def empty_slice_def)

lemma append_slice_len:
  "append_slice g h s x = (h1, s1) \<Longrightarrow> s_len s1 = Suc (s_len s)"
  by (auto simp: append_slice_def Let_def split: if_splits)

lemma append_slice_maps:
  "append_slice g h s x = (h1, s1) \<Longrightarrow> strmaps h1 = strmaps h \<and> intmaps h1 = intmaps h"
  by (auto simp: append_slice_def Let_def split: if_splits)

lemma append_slice_valid:
  assumes "append_slice g h s x = (h1, s1)" and "valid_slice base h s"
    and "base \<le> length (arrays h)"
  shows "valid_slice base h1 s1 \<and> 0 < s_cap s1"
  using assms
  by (auto simp: append_slice_def Let_def valid_slice_def slice_elems_def nth_append
      split: if_splits)

lemma append_slice_elems:
  assumes "append_slice g h s x = (h1, s1)" and "valid_slice base h s"
  shows "slice_elems h1 s1 = slice_elems h s @ [x]"
proof (cases "s_len s < s_cap s")
  case True
  with assms(2) have a: "s_array s < length (arrays h)"
    and l: "s_len s < length (arrays h ! s_array s)"
    by (auto simp: valid_slice_def)
  from True assms(1) have h1: "h1 = h\<lparr>arrays := (arrays h)[s_array s := (arrays h ! s_array s)[s_len s := x]]\<rparr>"
    and s1: "s1 = s\<lparr>s_len := s_len s + 1\<rparr>"
    by (auto simp: append_slice_def)
  have "take (Suc (s_len s)) ((arrays h ! s_array s)[s_len s := x])
      = take (s_len s) (arrays h ! s_array s) @ [x]"
    using l by (simp add: take_Suc_conv_app_nth)
  with a h1 s1 show ?thesis
    by (simp add: slice_elems_def)
next
  case False
  with assms(1) have h1: "arrays h1 = arrays h @ [slice_elems h s @ [x]
                   @ replicate (max (g (s_cap s)) (s_len s + 1) - (s_len s + 1)) zero_InventoriedCertificate]"
    and s1: "s_array s1 = length (arrays h)" "s_len s1 = s_len s + 1"
    by (auto simp: append_slice_def Let_def)
  from length_slice_elems [OF assms(2)] h1 s1 show ?thesis
    by (simp add: slice_elems_def [of h1])
qed

lemma append_slice_arrays:
  assumes "append_slice g h s x = (h1, s1)" and "valid_slice base h s"
    and "base \<le> length (arrays h)"
  shows "take base (arrays h1) = take base (arrays h) \<and> length (arrays h) \<le> length (arrays h1)"
  using assms
  by (auto simp: append_slice_def Let_def valid_slice_def split: if_splits)

text \<open>
  An append never changes what an older header reads: it writes at index \<^verbatim>\<open>len(s)\<close> or
  into a new array, and an older header of the same array is no longer than \<^verbatim>\<open>s\<close>.
\<close>

lemma append_slice_frame:
  assumes "append_slice g h s x = (h1, s1)"
    and "s_array t < length (arrays h)"
    and "s_array t = s_array s \<Longrightarrow> s_len s < s_cap s \<Longrightarrow> s_len t \<le> s_len s"
  shows "slice_elems h1 t = slice_elems h t"
proof (cases "s_len s < s_cap s")
  case True
  with assms(1) have h1: "arrays h1 = (arrays h)[s_array s := (arrays h ! s_array s)[s_len s := x]]"
    by (auto simp: append_slice_def)
  show ?thesis
  proof (cases "s_array t = s_array s")
    case same: True
    with assms(3) True have "s_len t \<le> s_len s" by simp
    with same h1 assms(2) show ?thesis by (simp add: slice_elems_def)
  next
    case False
    with h1 show ?thesis by (simp add: slice_elems_def)
  qed
next
  case False
  with assms(1) have "\<exists>new. arrays h1 = arrays h @ [new]"
    by (auto simp: append_slice_def Let_def)
  with assms(2) show ?thesis by (auto simp: slice_elems_def nth_append)
qed

lemma mark_all_snoc: "mark_all f (xs @ [x]) = AList.update (f x) True (mark_all f xs)"
  by (simp add: mark_all_def)

lemma slice_elems_maps_irrelevant:
  "arrays h' = arrays h \<Longrightarrow> slice_elems h' t = slice_elems h t"
  by (simp add: slice_elems_def)

subsection \<open>The inner loop\<close>

lemma range_Certificates_step:
  assumes inv: "slot_inv H h invC done emitted"
    and lit: "iCert_literal cert = Some c"
  shows "\<exists>h' invC'.
           range_Certificates g (cert # rest) (h, invC, items)
             = range_Certificates g rest (h', invC', items @ [invC'])
         \<and> slot_inv H h' invC' (done @ [c]) (emitted @ [invC'])
         \<and> invC' = invC\<lparr>Certificates := Certificates invC'\<rparr>"
proof -
  let ?base = "length (arrays H)"
  let ?s = "Certificates invC"
  obtain h1 s1 where app: "append_slice g h ?s c = (h1, s1)"
    by (cases "append_slice g h ?s c")
  define invC1 where "invC1 = invC\<lparr>Certificates := s1\<rparr>"
  define h2 where "h2 = assign_strmap h1 (Thumbprints invC1) (Thumbprint c) True"
  define h3 where "h3 = assign_strmap h2 (Serials invC1) (SerialNumber c) True"
  define h4 where "h4 = assign_intmap h3 (Ids invC1) (Id_cert c) True"
  from inv have valid: "valid_slice ?base h ?s" and elems: "slice_elems h ?s = done"
    and pre: "take ?base (arrays h) = arrays H"
    and at: "Thumbprints invC = length (strmaps H)"
    and as: "Serials invC = Suc (length (strmaps H))"
    and ai: "Ids invC = length (intmaps H)"
    and sm: "strmaps h = strmaps H @ [mark_all Thumbprint done, mark_all SerialNumber done]"
    and im: "intmaps h = intmaps H @ [mark_all Id_cert done]"
    and len_em: "length emitted = length done"
    by (simp_all add: slot_inv_def)
  from pre have base_le: "?base \<le> length (arrays h)"
    by (metis length_take min.cobounded1)
  from length_slice_elems [OF valid] elems have len_s: "s_len ?s = length done" by simp
  note fields = iCert_literal_fields [OF lit]
  from fields(3) obtain f where f: "field_float64 cert ''Id'' = Some f"
    and fi: "int_of_float64 f = Id_cert c" by blast
  have run: "range_Certificates g (cert # rest) (h, invC, items)
             = range_Certificates g rest (h4, invC1, items @ [invC1])"
    using lit app fields(1,2) f fi
    by (simp add: invC1_def h2_def h3_def h4_def Let_def)
  have arr4: "arrays h4 = arrays h1"
    by (simp add: h4_def h3_def h2_def assign_strmap_def assign_intmap_def)
  from append_slice_maps [OF app] have maps1: "strmaps h1 = strmaps h" "intmaps h1 = intmaps h"
    by simp_all
  have sm4: "strmaps h4 = strmaps H @ [mark_all Thumbprint (done @ [c]),
                                       mark_all SerialNumber (done @ [c])]"
    using maps1 sm at as
    by (simp add: h4_def h3_def h2_def invC1_def assign_strmap_def assign_intmap_def
        mark_all_snoc list_update_append nth_append)
  have im4: "intmaps h4 = intmaps H @ [mark_all Id_cert (done @ [c])]"
    using maps1 im ai
    by (simp add: h4_def h3_def h2_def invC1_def assign_strmap_def assign_intmap_def
        mark_all_snoc list_update_append nth_append)
  from append_slice_valid [OF app valid base_le]
  have valid1: "valid_slice ?base h1 s1" and cap1: "0 < s_cap s1" by simp_all
  then have valid4: "valid_slice ?base h4 s1"
    using arr4 by (simp add: valid_slice_def)
  from valid1 cap1 have s1_alloc: "?base \<le> s_array s1" "s_array s1 < length (arrays h1)"
    by (simp_all add: valid_slice_def)
  from append_slice_elems [OF app valid] elems
  have elems1: "slice_elems h1 s1 = done @ [c]" by simp
  then have elems4: "slice_elems h4 s1 = done @ [c]"
    using slice_elems_maps_irrelevant [OF arr4] by simp
  from append_slice_arrays [OF app valid base_le] pre
  have pre4: "take ?base (arrays h4) = arrays H" and grow: "length (arrays h) \<le> length (arrays h1)"
    using arr4 by simp_all
  from append_slice_len [OF app] len_s have len1: "s_len s1 = Suc (length done)" by simp
  have entries: "(emitted @ [invC1]) ! j = invC1\<lparr>Certificates := Certificates ((emitted @ [invC1]) ! j)\<rparr>
        \<and> s_len (Certificates ((emitted @ [invC1]) ! j)) = Suc j
        \<and> ?base \<le> s_array (Certificates ((emitted @ [invC1]) ! j))
        \<and> s_array (Certificates ((emitted @ [invC1]) ! j)) < length (arrays h4)
        \<and> slice_elems h4 (Certificates ((emitted @ [invC1]) ! j)) = take (Suc j) (done @ [c])"
    if j: "j < length (emitted @ [invC1])" for j
  proof (cases "j < length emitted")
    case True
    let ?t = "Certificates (emitted ! j)"
    from inv True have e: "emitted ! j = invC\<lparr>Certificates := ?t\<rparr>"
      and el: "s_len ?t = Suc j" and eb: "?base \<le> s_array ?t"
      and ea: "s_array ?t < length (arrays h)"
      and ee: "slice_elems h ?t = take (Suc j) done"
      by (simp_all add: slot_inv_def)
    from el True len_em len_s have "s_len ?t \<le> s_len ?s" by simp
    with append_slice_frame [OF app ea] have "slice_elems h1 ?t = slice_elems h ?t" by simp
    with ee slice_elems_maps_irrelevant [OF arr4] True len_em
    have "slice_elems h4 ?t = take (Suc j) (done @ [c])" by simp
    moreover from e have "emitted ! j = invC1\<lparr>Certificates := ?t\<rparr>"
      by (simp add: invC1_def)
    ultimately show ?thesis
      using True el eb ea grow arr4 by (simp add: nth_append)
  next
    case False
    with j have "j = length emitted" by simp
    with len_em len1 s1_alloc elems4 arr4 show ?thesis
      by (simp add: nth_append invC1_def)
  qed
  have "slot_inv H h4 invC1 (done @ [c]) (emitted @ [invC1])"
    unfolding slot_inv_def
    using at as ai sm4 im4 pre4 valid4 elems4 len_em entries
    by (simp add: invC1_def)
  moreover have "invC1 = invC\<lparr>Certificates := Certificates invC1\<rparr>"
    by (simp add: invC1_def)
  ultimately show ?thesis using run by blast
qed

lemma range_Certificates_inv:
  assumes "map iCert_literal certs = map Some cs"
    and "slot_inv H h invC done emitted"
  shows "\<exists>h' invC' emitted'.
           range_Certificates g certs (h, invC, items @ emitted)
             = Some (h', invC', items @ emitted')
         \<and> slot_inv H h' invC' (done @ cs) emitted'
         \<and> invC' = invC\<lparr>Certificates := Certificates invC'\<rparr>"
  using assms
proof (induction certs arbitrary: cs h invC "done" emitted)
  case Nil
  then show ?case by auto
next
  case (Cons cert certs)
  from Cons.prems(1) obtain c cs' where cs: "cs = c # cs'"
    and lit: "iCert_literal cert = Some c"
    and rest: "map iCert_literal certs = map Some cs'"
    by (cases cs) auto
  from range_Certificates_step [OF Cons.prems(2) lit, of g certs "items @ emitted"]
  obtain h' invC' where
    step: "range_Certificates g (cert # certs) (h, invC, items @ emitted)
             = range_Certificates g certs (h', invC', (items @ emitted) @ [invC'])"
    and inv': "slot_inv H h' invC' (done @ [c]) (emitted @ [invC'])"
    and same: "invC' = invC\<lparr>Certificates := Certificates invC'\<rparr>"
    by blast
  from Cons.IH [OF rest inv'] obtain h'' invC'' emitted'' where
    run: "range_Certificates g certs (h', invC', items @ emitted @ [invC'])
            = Some (h'', invC'', items @ emitted'')"
    and inv'': "slot_inv H h'' invC'' ((done @ [c]) @ cs') emitted''"
    and same': "invC'' = invC'\<lparr>Certificates := Certificates invC''\<rparr>"
    by auto
  from same same' have "invC'' = invC\<lparr>Certificates := Certificates invC''\<rparr>"
    by (metis CertStoreInventory.update_convs(3) CertStoreInventory.surjective
         CertStoreInventory.select_convs)
  with run inv'' step cs show ?case
    by (simp del: range_Certificates.simps)
qed

subsection \<open>Maps as sets, and stores that extend\<close>

lemma index_bool_fold_update:
  "index_bool (fold (\<lambda>x m. AList.update (f x) True m) xs acc) k
     \<longleftrightarrow> k \<in> f ` set xs \<or> index_bool acc k"
  by (induction xs arbitrary: acc) (auto simp: index_bool_def update_conv')

lemma index_bool_Nil: "index_bool [] k = False"
  by (simp add: index_bool_def)

lemma index_bool_mark_all: "index_bool (mark_all f xs) k \<longleftrightarrow> k \<in> f ` set xs"
  by (simp add: mark_all_def index_bool_fold_update index_bool_Nil)

lemma heap_extends_refl: "heap_extends h h"
  by (simp add: heap_extends_def)

lemma heap_extends_trans: "heap_extends h h' \<Longrightarrow> heap_extends h' h'' \<Longrightarrow> heap_extends h h''"
  by (auto simp: heap_extends_def)

lemma prefix_nth: "prefix xs ys \<Longrightarrow> i < length xs \<Longrightarrow> ys ! i = xs ! i"
  by (auto simp: prefix_def nth_append)

lemma allocated_mono: "heap_extends h h' \<Longrightarrow> allocated h t \<Longrightarrow> allocated h' t"
  by (auto simp: heap_extends_def allocated_def dest: prefix_length_le)

lemma views_stable:
  assumes "heap_extends h h'" and "allocated h t"
  shows "Certificates_of h' t = Certificates_of h t"
    and "Thumbprints_of h' t = Thumbprints_of h t"
    and "Serials_of h' t = Serials_of h t"
    and "Ids_of h' t = Ids_of h t"
proof -
  from assms have "arrays h' ! s_array (Certificates t) = arrays h ! s_array (Certificates t)"
    and "strmaps h' ! Thumbprints t = strmaps h ! Thumbprints t"
    and "strmaps h' ! Serials t = strmaps h ! Serials t"
    and "intmaps h' ! Ids t = intmaps h ! Ids t"
    by (simp_all add: heap_extends_def allocated_def prefix_nth)
  then show "Certificates_of h' t = Certificates_of h t"
    and "Thumbprints_of h' t = Thumbprints_of h t"
    and "Serials_of h' t = Serials_of h t"
    and "Ids_of h' t = Ids_of h t"
    by (simp_all add: Certificates_of_def Thumbprints_of_def Serials_of_def Ids_of_def
        slice_elems_def)
qed

subsection \<open>The outer loop\<close>

lemma range_jsonResp_element:
  assumes name: "field_string s ''Name'' = Some name"
    and iid: "field_float64 s ''CertStoreInventoryItemId'' = Some itemId"
    and certs: "field_slice s ''Certificates'' = Some certificates"
    and lits: "map iCert_literal certificates = map Some cs"
  shows "\<exists>h' entries ext m.
      assert_map s = Some m
    \<and> range_jsonResp g (s # rest) (h, items) = range_jsonResp g rest (h', items @ entries)
    \<and> arrays h' = arrays h @ ext
    \<and> strmaps h' = strmaps h @ [mark_all Thumbprint cs, mark_all SerialNumber cs]
    \<and> intmaps h' = intmaps h @ [mark_all Id_cert cs]
    \<and> length entries = length cs
    \<and> (\<forall>j < length cs.
          entries ! j = \<lparr>Name = name, CertStoreInventoryItemId = int_of_float64 itemId,
                          Certificates = Certificates (entries ! j),
                          Parameters = fst (assert_map_ok (index_any m ''Parameters'')),
                          Thumbprints = length (strmaps h), Serials = Suc (length (strmaps h)),
                          Ids = length (intmaps h)\<rparr>
        \<and> s_array (Certificates (entries ! j)) < length (arrays h')
        \<and> slice_elems h' (Certificates (entries ! j)) = take (Suc j) cs)"
proof -
  from certs obtain m where m: "assert_map s = Some m"
    by (auto simp: field_slice_def split: bind_splits)
  obtain p ok where pk: "assert_map_ok (index_any m ''Parameters'') = (p, ok)"
    by (cases "assert_map_ok (index_any m ''Parameters'')")
  then have p: "(if \<not> ok then [] else p) = p"
    by (cases "index_any m ''Parameters''") auto
  define h3 where "h3 = h\<lparr>strmaps := strmaps h @ [[], []], intmaps := intmaps h @ [[]]\<rparr>"
  define invC where "invC = \<lparr>Name = name, CertStoreInventoryItemId = int_of_float64 itemId,
                      Certificates = empty_slice, Parameters = p,
                      Thumbprints = length (strmaps h), Serials = Suc (length (strmaps h)),
                      Ids = length (intmaps h)\<rparr>"
  have start: "slot_inv h h3 invC [] []"
    by (simp add: slot_inv_def h3_def invC_def mark_all_def valid_empty_slice
        slice_elems_empty_slice)
  from range_Certificates_inv [OF lits start, of g items]
  obtain h' invC' entries where
    inner: "range_Certificates g certificates (h3, invC, items) = Some (h', invC', items @ entries)"
    and fin: "slot_inv h h' invC' cs entries"
    and same: "invC' = invC\<lparr>Certificates := Certificates invC'\<rparr>"
    by auto
  have step: "range_jsonResp g (s # rest) (h, items) = range_jsonResp g rest (h', items @ entries)"
    using m name iid certs inner
    by (simp add: make_strmap_def make_intmap_def Let_def h3_def invC_def pk p)
  from fin have "take (length (arrays h)) (arrays h') = arrays h"
    by (simp add: slot_inv_def)
  then have ext: "arrays h' = arrays h @ drop (length (arrays h)) (arrays h')"
    by (metis append_take_drop_id)
  from fin have maps: "strmaps h' = strmaps h @ [mark_all Thumbprint cs, mark_all SerialNumber cs]"
    "intmaps h' = intmaps h @ [mark_all Id_cert cs]" "length entries = length cs"
    by (simp_all add: slot_inv_def)
  have each: "entries ! j = \<lparr>Name = name, CertStoreInventoryItemId = int_of_float64 itemId,
                          Certificates = Certificates (entries ! j),
                          Parameters = fst (assert_map_ok (index_any m ''Parameters'')),
                          Thumbprints = length (strmaps h), Serials = Suc (length (strmaps h)),
                          Ids = length (intmaps h)\<rparr>
        \<and> s_array (Certificates (entries ! j)) < length (arrays h')
        \<and> slice_elems h' (Certificates (entries ! j)) = take (Suc j) cs"
    if "j < length cs" for j
  proof -
    from that fin have e: "entries ! j = invC'\<lparr>Certificates := Certificates (entries ! j)\<rparr>"
      and a: "s_array (Certificates (entries ! j)) < length (arrays h')"
      and v: "slice_elems h' (Certificates (entries ! j)) = take (Suc j) cs"
      by (simp_all add: slot_inv_def)
    from e same have "entries ! j = invC\<lparr>Certificates := Certificates (entries ! j)\<rparr>"
      by (metis CertStoreInventory.update_convs(3) CertStoreInventory.surjective
           CertStoreInventory.select_convs)
    with a v pk show ?thesis by (simp add: invC_def)
  qed
  from m step ext maps each show ?thesis by blast
qed

lemma list_all_not_None:
  "list_all (\<lambda>x. f x \<noteq> None) xs \<Longrightarrow> \<exists>ys. map f xs = map Some ys"
proof (induction xs)
  case Nil
  then show ?case by simp
next
  case (Cons x xs)
  then obtain y ys where "f x = Some y" "map f xs = map Some ys" by auto
  then have "map f (x # xs) = map Some (y # ys)" by simp
  then show ?case by blast
qed

lemma well_typed_elementD:
  assumes "well_typed_element s"
  shows "\<exists>name itemId certificates cs.
           field_string s ''Name'' = Some name
         \<and> field_float64 s ''CertStoreInventoryItemId'' = Some itemId
         \<and> field_slice s ''Certificates'' = Some certificates
         \<and> map iCert_literal certificates = map Some cs"
proof -
  from assms obtain certificates where c: "field_slice s ''Certificates'' = Some certificates"
    and n: "field_string s ''Name'' \<noteq> None"
    and i: "field_float64 s ''CertStoreInventoryItemId'' \<noteq> None"
    and l: "list_all (\<lambda>cert. iCert_literal cert \<noteq> None) certificates"
    by (auto simp: well_typed_element_def split: option.splits)
  from list_all_not_None [OF l] n i c show ?thesis by auto
qed

lemma range_jsonResp_prefix:
  assumes "list_all well_typed_element xs"
  shows "\<exists>h' more.
           range_jsonResp g (xs @ ys) (h, items) = range_jsonResp g ys (h', items @ more)
         \<and> heap_extends h h'
         \<and> length more = sum_list (map len_Certificates xs)
         \<and> (\<forall>t \<in> set more. allocated h' t \<and> (\<exists>s \<in> set xs. comes_from s t))"
  using assms
proof (induction xs arbitrary: h items)
  case Nil
  show ?case
    by (rule exI [of _ h], rule exI [of _ "[]"]) (simp add: heap_extends_refl)
next
  case (Cons s xs)
  from Cons.prems have ts: "well_typed_element s" and txs: "list_all well_typed_element xs"
    by simp_all
  from well_typed_elementD [OF ts] obtain name itemId certificates cs where
    name: "field_string s ''Name'' = Some name"
    and iid: "field_float64 s ''CertStoreInventoryItemId'' = Some itemId"
    and certs: "field_slice s ''Certificates'' = Some certificates"
    and lits: "map iCert_literal certificates = map Some cs"
    by blast
  from lits have len: "length certificates = length cs"
    by (metis length_map)
  from range_jsonResp_element [OF name iid certs lits, of g "xs @ ys" h items]
  obtain h1 entries ext m where m: "assert_map s = Some m"
    and step: "range_jsonResp g (s # xs @ ys) (h, items)
                 = range_jsonResp g (xs @ ys) (h1, items @ entries)"
    and arr: "arrays h1 = arrays h @ ext"
    and sm: "strmaps h1 = strmaps h @ [mark_all Thumbprint cs, mark_all SerialNumber cs]"
    and im: "intmaps h1 = intmaps h @ [mark_all Id_cert cs]"
    and n: "length entries = length cs"
    and each: "\<And>j. j < length cs \<Longrightarrow>
          entries ! j = \<lparr>Name = name, CertStoreInventoryItemId = int_of_float64 itemId,
                          Certificates = Certificates (entries ! j),
                          Parameters = fst (assert_map_ok (index_any m ''Parameters'')),
                          Thumbprints = length (strmaps h), Serials = Suc (length (strmaps h)),
                          Ids = length (intmaps h)\<rparr>
        \<and> s_array (Certificates (entries ! j)) < length (arrays h1)
        \<and> slice_elems h1 (Certificates (entries ! j)) = take (Suc j) cs"
    by blast
  have ext1: "heap_extends h h1"
    using arr sm im by (simp add: heap_extends_def)
  have mine: "allocated h1 t \<and> comes_from s t" if "t \<in> set entries" for t
  proof -
    from that obtain j where j: "j < length entries" and t: "t = entries ! j"
      by (auto simp: in_set_conv_nth)
    from each [of j] j n t have
      e: "t = \<lparr>Name = name, CertStoreInventoryItemId = int_of_float64 itemId,
                          Certificates = Certificates t,
                          Parameters = fst (assert_map_ok (index_any m ''Parameters'')),
                          Thumbprints = length (strmaps h), Serials = Suc (length (strmaps h)),
                          Ids = length (intmaps h)\<rparr>"
      and a: "s_array (Certificates t) < length (arrays h1)"
      by simp_all
    have fields: "Name t = name" "CertStoreInventoryItemId t = int_of_float64 itemId"
      "Parameters t = fst (assert_map_ok (index_any m ''Parameters''))"
      "Thumbprints t = length (strmaps h)" "Serials t = Suc (length (strmaps h))"
      "Ids t = length (intmaps h)"
      by (subst e, simp)+
    from fields a sm im have "allocated h1 t"
      by (simp add: allocated_def)
    moreover from fields name iid m certs j n len have "comes_from s t"
      by (auto simp: comes_from_def len_Certificates_def)
    ultimately show ?thesis by simp
  qed
  from Cons.IH [OF txs, of h1 "items @ entries"]
  obtain h' more where
    run: "range_jsonResp g (xs @ ys) (h1, items @ entries)
            = range_jsonResp g ys (h', (items @ entries) @ more)"
    and ext2: "heap_extends h1 h'"
    and count: "length more = sum_list (map len_Certificates xs)"
    and theirs: "\<forall>t \<in> set more. allocated h' t \<and> (\<exists>s \<in> set xs. comes_from s t)"
    by blast
  have "range_jsonResp g ((s # xs) @ ys) (h, items)
          = range_jsonResp g ys (h', items @ (entries @ more))"
    using step run by simp
  moreover have "heap_extends h h'"
    using ext1 ext2 by (rule heap_extends_trans)
  moreover have "length (entries @ more) = sum_list (map len_Certificates (s # xs))"
    using count n len certs by (simp add: len_Certificates_def)
  moreover have "\<forall>t \<in> set (entries @ more).
      allocated h' t \<and> (\<exists>s' \<in> set (s # xs). comes_from s' t)"
    using mine theirs allocated_mono [OF ext2] by auto
  ultimately show ?case by blast
qed

lemma range_jsonResp_around:
  assumes typed: "list_all well_typed_element (before @ s # after)"
    and certs: "field_slice s ''Certificates'' = Some certificates"
  shows "\<exists>h pre entries post cs name itemId.
      range_jsonResp g (before @ s # after) (h0, []) = Some (h, pre @ entries @ post)
    \<and> length pre = sum_list (map len_Certificates before)
    \<and> length post = sum_list (map len_Certificates after)
    \<and> length entries = length certificates
    \<and> map iCert_literal certificates = map Some cs
    \<and> field_string s ''Name'' = Some name
    \<and> field_float64 s ''CertStoreInventoryItemId'' = Some itemId
    \<and> (\<forall>t \<in> set (pre @ post). \<exists>s' \<in> set (before @ after). comes_from s' t)
    \<and> (\<forall>k < length certificates.
          Name (entries ! k) = name
        \<and> CertStoreInventoryItemId (entries ! k) = int_of_float64 itemId
        \<and> Certificates_of h (entries ! k) = take (Suc k) cs
        \<and> Thumbprints_of h (entries ! k) = mark_all Thumbprint cs
        \<and> Serials_of h (entries ! k) = mark_all SerialNumber cs
        \<and> Ids_of h (entries ! k) = mark_all Id_cert cs)"
proof -
  from typed have tb: "list_all well_typed_element before" and ts: "well_typed_element s"
    and ta: "list_all well_typed_element after"
    by simp_all
  from well_typed_elementD [OF ts] certs obtain name itemId cs where
    name: "field_string s ''Name'' = Some name"
    and iid: "field_float64 s ''CertStoreInventoryItemId'' = Some itemId"
    and lits: "map iCert_literal certificates = map Some cs"
    by auto
  from lits have len: "length certificates = length cs"
    by (metis length_map)
  from range_jsonResp_prefix [OF tb, of g "s # after" h0 "[]"]
  obtain h1 pre where
    run1: "range_jsonResp g (before @ s # after) (h0, []) = range_jsonResp g (s # after) (h1, pre)"
    and n1: "length pre = sum_list (map len_Certificates before)"
    and from1: "\<forall>t \<in> set pre. \<exists>s' \<in> set before. comes_from s' t"
    by auto
  from range_jsonResp_element [OF name iid certs lits, of g after h1 pre]
  obtain h2 entries ext m where
    run2: "range_jsonResp g (s # after) (h1, pre) = range_jsonResp g after (h2, pre @ entries)"
    and arr: "arrays h2 = arrays h1 @ ext"
    and sm: "strmaps h2 = strmaps h1 @ [mark_all Thumbprint cs, mark_all SerialNumber cs]"
    and im: "intmaps h2 = intmaps h1 @ [mark_all Id_cert cs]"
    and n2: "length entries = length cs"
    and each: "\<And>j. j < length cs \<Longrightarrow>
          entries ! j = \<lparr>Name = name, CertStoreInventoryItemId = int_of_float64 itemId,
                          Certificates = Certificates (entries ! j),
                          Parameters = fst (assert_map_ok (index_any m ''Parameters'')),
                          Thumbprints = length (strmaps h1), Serials = Suc (length (strmaps h1)),
                          Ids = length (intmaps h1)\<rparr>
        \<and> s_array (Certificates (entries ! j)) < length (arrays h2)
        \<and> slice_elems h2 (Certificates (entries ! j)) = take (Suc j) cs"
    by blast
  from range_jsonResp_prefix [OF ta, of g "[]" h2 "pre @ entries"]
  obtain h3 post where
    run3: "range_jsonResp g after (h2, pre @ entries) = Some (h3, pre @ entries @ post)"
    and ext3: "heap_extends h2 h3"
    and n3: "length post = sum_list (map len_Certificates after)"
    and from3: "\<forall>t \<in> set post. \<exists>s' \<in> set after. comes_from s' t"
    by auto
  have view: "Name (entries ! k) = name
        \<and> CertStoreInventoryItemId (entries ! k) = int_of_float64 itemId
        \<and> Certificates_of h3 (entries ! k) = take (Suc k) cs
        \<and> Thumbprints_of h3 (entries ! k) = mark_all Thumbprint cs
        \<and> Serials_of h3 (entries ! k) = mark_all SerialNumber cs
        \<and> Ids_of h3 (entries ! k) = mark_all Id_cert cs"
    if "k < length certificates" for k
  proof -
    let ?t = "entries ! k"
    from that len each [of k] have
      e: "?t = \<lparr>Name = name, CertStoreInventoryItemId = int_of_float64 itemId,
                          Certificates = Certificates ?t,
                          Parameters = fst (assert_map_ok (index_any m ''Parameters'')),
                          Thumbprints = length (strmaps h1), Serials = Suc (length (strmaps h1)),
                          Ids = length (intmaps h1)\<rparr>"
      and a: "s_array (Certificates ?t) < length (arrays h2)"
      and v: "slice_elems h2 (Certificates ?t) = take (Suc k) cs"
      by simp_all
    have fields: "Name ?t = name" "CertStoreInventoryItemId ?t = int_of_float64 itemId"
      "Thumbprints ?t = length (strmaps h1)" "Serials ?t = Suc (length (strmaps h1))"
      "Ids ?t = length (intmaps h1)"
      by (subst e, simp)+
    from fields a sm im have al: "allocated h2 ?t"
      by (simp add: allocated_def)
    have "Certificates_of h2 ?t = take (Suc k) cs"
      "Thumbprints_of h2 ?t = mark_all Thumbprint cs"
      "Serials_of h2 ?t = mark_all SerialNumber cs"
      "Ids_of h2 ?t = mark_all Id_cert cs"
      using v fields sm im
      by (simp_all add: Certificates_of_def Thumbprints_of_def Serials_of_def Ids_of_def
          nth_append)
    with views_stable [OF ext3 al] fields show ?thesis by simp
  qed
  have "range_jsonResp g (before @ s # after) (h0, []) = Some (h3, pre @ entries @ post)"
    using run1 run2 run3 by simp
  moreover have "\<forall>t \<in> set (pre @ post). \<exists>s' \<in> set (before @ after). comes_from s' t"
    using from1 from3 by auto
  moreover have "length entries = length certificates"
    using n2 len by simp
  ultimately show ?thesis
    using n1 n3 lits name iid view by blast
qed

subsection \<open>The fixtures, run\<close>

lemma iCert_A: "iCert_literal json_cert_A = Some cert_A"
  by (simp add: iCert_literal_def json_cert_A_def cert_A_def field_string_def field_float64_def
      index_any_def int_of_float64_def)

lemma iCert_B: "iCert_literal json_cert_B = Some cert_B"
  by (simp add: iCert_literal_def json_cert_B_def cert_B_def field_string_def field_float64_def
      index_any_def int_of_float64_def)

lemma chain_run:
  "GetCertStoreInventory (recording_transport \<lparr>StatusCode = 200, Body = ''chain''\<rparr>)
       table_Decode doubling ''7'' empty_heap []
     = Some (Inr [chain_entry_1, chain_entry_2], chain_heap, [inventory_request ''7''])"
  by code_simp

subsection \<open>What the decoder returns for one element\<close>

text \<open>
  The code as it is. Let the transport answer the GET request with a response whose body
  decodes to a payload \<open>before @ storedCert # after\<close> of well-typed elements, and let
  \<open>storedCert\<close> hold \<open>n\<close> certificates. Then \<^verbatim>\<open>GetCertStoreInventory\<close> returns, and its
  result has one entry per certificate of the payload: the entries of the elements before,
  then \<open>n\<close> entries for \<open>storedCert\<close>, then the entries of the elements after. Each of the
  \<open>n\<close> entries has the element's name and item id. The \<open>k\<close>-th of them (from 1) reads the
  first \<open>k\<close> certificates of the element through the slice header it was copied with, while
  all \<open>n\<close> read the same three maps, which hold the keys of all \<open>n\<close> certificates: for
  \<open>k < n\<close> list and sets disagree, which is the defect the two results of the next section
  show on a concrete payload. A payload of one element with one certificate gives exactly
  one item, whose list is that certificate and whose sets hold exactly its thumbprint, its
  serial number and its id.
\<close>

lemma inventory_entries_of_element:
  assumes sent: "sendRequest \<lparr>Method = ''GET'',
                   Endpoint = ''CertificateStores/'' @ storeId @ ''/Inventory'',
                   Headers = keyfactor_headers, Payload = None\<rparr> w = (Inr resp, w')"
    and decoded: "json_Decode (Body resp) = Inr (before @ storedCert # after)"
    and typed: "list_all well_typed_element (before @ storedCert # after)"
    and certs: "field_slice storedCert ''Certificates'' = Some certificates"
  shows "\<exists>h pre entries post iCerts.
      GetCertStoreInventory sendRequest json_Decode growslice storeId h0 w
        = Some (Inr (pre @ entries @ post), h, w')
    \<and> length pre = sum_list (map len_Certificates before)
    \<and> length post = sum_list (map len_Certificates after)
    \<and> length entries = length certificates
    \<and> map iCert_literal certificates = map Some iCerts
    \<and> (\<forall>k < length certificates.
          field_string storedCert ''Name'' = Some (Name (entries ! k))
        \<and> map_option int_of_float64 (field_float64 storedCert ''CertStoreInventoryItemId'')
            = Some (CertStoreInventoryItemId (entries ! k))
        \<and> Certificates_of h (entries ! k) = take (Suc k) iCerts
        \<and> (\<forall>x. index_bool (Thumbprints_of h (entries ! k)) x = (x \<in> Thumbprint ` set iCerts))
        \<and> (\<forall>x. index_bool (Serials_of h (entries ! k)) x = (x \<in> SerialNumber ` set iCerts))
        \<and> (\<forall>x. index_bool (Ids_of h (entries ! k)) x = (x \<in> Id_cert ` set iCerts)))
    \<and> (before = [] \<longrightarrow> after = [] \<longrightarrow> length certificates = 1 \<longrightarrow>
         (\<exists>item iCert. pre @ entries @ post = [item] \<and> iCerts = [iCert]
            \<and> Certificates_of h item = [iCert]
            \<and> (\<forall>x. index_bool (Thumbprints_of h item) x = (x = Thumbprint iCert))
            \<and> (\<forall>x. index_bool (Serials_of h item) x = (x = SerialNumber iCert))
            \<and> (\<forall>x. index_bool (Ids_of h item) x = (x = Id_cert iCert))))"
proof -
  from range_jsonResp_around [OF typed certs, of growslice h0]
  obtain h pre entries post cs name itemId where
    loop: "range_jsonResp growslice (before @ storedCert # after) (h0, [])
             = Some (h, pre @ entries @ post)"
    and n1: "length pre = sum_list (map len_Certificates before)"
    and n3: "length post = sum_list (map len_Certificates after)"
    and n2: "length entries = length certificates"
    and lits: "map iCert_literal certificates = map Some cs"
    and name: "field_string storedCert ''Name'' = Some name"
    and iid: "field_float64 storedCert ''CertStoreInventoryItemId'' = Some itemId"
    and view: "\<And>k. k < length certificates \<Longrightarrow>
          Name (entries ! k) = name
        \<and> CertStoreInventoryItemId (entries ! k) = int_of_float64 itemId
        \<and> Certificates_of h (entries ! k) = take (Suc k) cs
        \<and> Thumbprints_of h (entries ! k) = mark_all Thumbprint cs
        \<and> Serials_of h (entries ! k) = mark_all SerialNumber cs
        \<and> Ids_of h (entries ! k) = mark_all Id_cert cs"
    by blast
  have run: "GetCertStoreInventory sendRequest json_Decode growslice storeId h0 w
        = Some (Inr (pre @ entries @ post), h, w')"
    using sent decoded loop by (simp add: GetCertStoreInventory_def Let_def)
  have each: "field_string storedCert ''Name'' = Some (Name (entries ! k))
        \<and> map_option int_of_float64 (field_float64 storedCert ''CertStoreInventoryItemId'')
            = Some (CertStoreInventoryItemId (entries ! k))
        \<and> Certificates_of h (entries ! k) = take (Suc k) cs
        \<and> (\<forall>x. index_bool (Thumbprints_of h (entries ! k)) x = (x \<in> Thumbprint ` set cs))
        \<and> (\<forall>x. index_bool (Serials_of h (entries ! k)) x = (x \<in> SerialNumber ` set cs))
        \<and> (\<forall>x. index_bool (Ids_of h (entries ! k)) x = (x \<in> Id_cert ` set cs))"
    if "k < length certificates" for k
    using view [OF that] name iid by (simp add: index_bool_mark_all)
  have single: "\<exists>item iCert. pre @ entries @ post = [item] \<and> cs = [iCert]
            \<and> Certificates_of h item = [iCert]
            \<and> (\<forall>x. index_bool (Thumbprints_of h item) x = (x = Thumbprint iCert))
            \<and> (\<forall>x. index_bool (Serials_of h item) x = (x = SerialNumber iCert))
            \<and> (\<forall>x. index_bool (Ids_of h item) x = (x = Id_cert iCert))"
    if b: "before = []" and a: "after = []" and one: "length certificates = 1"
  proof -
    from b a n1 n3 have "pre = []" "post = []" by simp_all
    moreover from one n2 obtain item where "entries = [item]"
      by (cases entries) auto
    moreover from one lits obtain iCert where "cs = [iCert]"
      by (cases cs) (auto dest: map_eq_imp_length_eq)
    ultimately show ?thesis
      using each [of 0] one by auto
  qed
  show ?thesis
  proof (intro exI conjI)
    show "GetCertStoreInventory sendRequest json_Decode growslice storeId h0 w
        = Some (Inr (pre @ entries @ post), h, w')" by (rule run)
    show "length pre = sum_list (map len_Certificates before)" by (rule n1)
    show "length post = sum_list (map len_Certificates after)" by (rule n3)
    show "length entries = length certificates" by (rule n2)
    show "map iCert_literal certificates = map Some cs" by (rule lits)
    show "\<forall>k < length certificates.
          field_string storedCert ''Name'' = Some (Name (entries ! k))
        \<and> map_option int_of_float64 (field_float64 storedCert ''CertStoreInventoryItemId'')
            = Some (CertStoreInventoryItemId (entries ! k))
        \<and> Certificates_of h (entries ! k) = take (Suc k) cs
        \<and> (\<forall>x. index_bool (Thumbprints_of h (entries ! k)) x = (x \<in> Thumbprint ` set cs))
        \<and> (\<forall>x. index_bool (Serials_of h (entries ! k)) x = (x \<in> SerialNumber ` set cs))
        \<and> (\<forall>x. index_bool (Ids_of h (entries ! k)) x = (x \<in> Id_cert ` set cs))"
      using each by blast
    show "before = [] \<longrightarrow> after = [] \<longrightarrow> length certificates = 1 \<longrightarrow>
         (\<exists>item iCert. pre @ entries @ post = [item] \<and> cs = [iCert]
            \<and> Certificates_of h item = [iCert]
            \<and> (\<forall>x. index_bool (Thumbprints_of h item) x = (x = Thumbprint iCert))
            \<and> (\<forall>x. index_bool (Serials_of h item) x = (x = SerialNumber iCert))
            \<and> (\<forall>x. index_bool (Ids_of h item) x = (x = Id_cert iCert)))"
      using single by blast
  qed
qed

lemma inventory_entries_of_element_instance:
  "Certificates_of chain_heap chain_entry_1 = take 1 [cert_A, cert_B]
   \<and> Certificates_of chain_heap chain_entry_2 = take 2 [cert_A, cert_B]
   \<and> (\<exists>h item.
         GetCertStoreInventory (recording_transport \<lparr>StatusCode = 200, Body = ''leaf''\<rparr>)
           table_Decode doubling ''8'' empty_heap ([] :: unit request list)
           = Some (Inr [item], h, [inventory_request ''8''])
       \<and> Certificates_of h item = [cert_A]
       \<and> (\<forall>x. index_bool (Thumbprints_of h item) x = (x = ''AA''))
       \<and> (\<forall>x. index_bool (Serials_of h item) x = (x = ''01''))
       \<and> (\<forall>x. index_bool (Ids_of h item) x = (x = 1)))"
proof -
  have sent: "recording_transport \<lparr>StatusCode = 200, Body = body\<rparr>
       \<lparr>Method = ''GET'', Endpoint = ''CertificateStores/'' @ storeId @ ''/Inventory'',
        Headers = keyfactor_headers, Payload = None\<rparr> ([] :: unit request list)
     = (Inr \<lparr>StatusCode = 200, Body = body\<rparr>, [inventory_request storeId])"
    for body storeId
    by (simp add: recording_transport_def inventory_request_def)
  have chain_decoded: "table_Decode (Body \<lparr>StatusCode = 200, Body = ''chain''\<rparr>)
      = Inr ([] @ element_AB # [])"
    by (simp add: table_Decode_def)
  have chain_typed: "list_all well_typed_element ([] @ element_AB # [])"
    by code_simp
  have chain_certs: "field_slice element_AB ''Certificates'' = Some [json_cert_A, json_cert_B]"
    by code_simp
  have leaf_decoded: "table_Decode (Body \<lparr>StatusCode = 200, Body = ''leaf''\<rparr>)
      = Inr ([] @ element_A # [])"
    by (simp add: table_Decode_def)
  have leaf_typed: "list_all well_typed_element ([] @ element_A # [])"
    by code_simp
  have leaf_certs: "field_slice element_A ''Certificates'' = Some [json_cert_A]"
    by code_simp
  from inventory_entries_of_element
    [where sendRequest = "recording_transport \<lparr>StatusCode = 200, Body = ''chain''\<rparr>"
       and json_Decode = table_Decode and growslice = doubling and ?h0.0 = empty_heap
       and storeId = "''7''" and w = "[] :: unit request list",
     OF sent chain_decoded chain_typed chain_certs]
  obtain h pre entries post iCerts where
    run: "GetCertStoreInventory (recording_transport \<lparr>StatusCode = 200, Body = ''chain''\<rparr>)
            table_Decode doubling ''7'' empty_heap ([] :: unit request list)
          = Some (Inr (pre @ entries @ post), h, [inventory_request ''7''])"
    and n1: "length pre = sum_list (map len_Certificates [])"
    and n3: "length post = sum_list (map len_Certificates [])"
    and n2: "length entries = length [json_cert_A, json_cert_B]"
    and lits: "map iCert_literal [json_cert_A, json_cert_B] = map Some iCerts"
    and view: "\<forall>k < length [json_cert_A, json_cert_B].
          field_string element_AB ''Name'' = Some (Name (entries ! k))
        \<and> map_option int_of_float64 (field_float64 element_AB ''CertStoreInventoryItemId'')
            = Some (CertStoreInventoryItemId (entries ! k))
        \<and> Certificates_of h (entries ! k) = take (Suc k) iCerts
        \<and> (\<forall>x. index_bool (Thumbprints_of h (entries ! k)) x = (x \<in> Thumbprint ` set iCerts))
        \<and> (\<forall>x. index_bool (Serials_of h (entries ! k)) x = (x \<in> SerialNumber ` set iCerts))
        \<and> (\<forall>x. index_bool (Ids_of h (entries ! k)) x = (x \<in> Id_cert ` set iCerts))"
    and single: "([] :: anyval list) = [] \<longrightarrow> ([] :: anyval list) = [] \<longrightarrow> length [json_cert_A, json_cert_B] = 1 \<longrightarrow>
         (\<exists>item iCert. pre @ entries @ post = [item] \<and> iCerts = [iCert]
            \<and> Certificates_of h item = [iCert]
            \<and> (\<forall>x. index_bool (Thumbprints_of h item) x = (x = Thumbprint iCert))
            \<and> (\<forall>x. index_bool (Serials_of h item) x = (x = SerialNumber iCert))
            \<and> (\<forall>x. index_bool (Ids_of h item) x = (x = Id_cert iCert)))"
    by (elim exE conjE) (rule that)
  from n1 n3 have "pre = []" "post = []" by simp_all
  with run chain_run have "entries = [chain_entry_1, chain_entry_2]" "h = chain_heap"
    by simp_all
  moreover from lits have "iCerts = [cert_A, cert_B]"
    by (auto simp: iCert_A iCert_B map_eq_Cons_conv)
  moreover from view have "Certificates_of h (entries ! 0) = take (Suc 0) iCerts"
    "Certificates_of h (entries ! 1) = take (Suc 1) iCerts"
    by simp_all
  ultimately have chain: "Certificates_of chain_heap chain_entry_1 = take 1 [cert_A, cert_B]"
    "Certificates_of chain_heap chain_entry_2 = take 2 [cert_A, cert_B]"
    by simp_all
  from inventory_entries_of_element
    [where sendRequest = "recording_transport \<lparr>StatusCode = 200, Body = ''leaf''\<rparr>"
       and json_Decode = table_Decode and growslice = doubling and ?h0.0 = empty_heap
       and storeId = "''8''" and w = "[] :: unit request list",
     OF sent leaf_decoded leaf_typed leaf_certs]
  obtain h pre entries post iCerts where
    run: "GetCertStoreInventory (recording_transport \<lparr>StatusCode = 200, Body = ''leaf''\<rparr>)
            table_Decode doubling ''8'' empty_heap ([] :: unit request list)
          = Some (Inr (pre @ entries @ post), h, [inventory_request ''8''])"
    and n1: "length pre = sum_list (map len_Certificates [])"
    and n3: "length post = sum_list (map len_Certificates [])"
    and n2: "length entries = length [json_cert_A]"
    and lits: "map iCert_literal [json_cert_A] = map Some iCerts"
    and view: "\<forall>k < length [json_cert_A].
          field_string element_A ''Name'' = Some (Name (entries ! k))
        \<and> map_option int_of_float64 (field_float64 element_A ''CertStoreInventoryItemId'')
            = Some (CertStoreInventoryItemId (entries ! k))
        \<and> Certificates_of h (entries ! k) = take (Suc k) iCerts
        \<and> (\<forall>x. index_bool (Thumbprints_of h (entries ! k)) x = (x \<in> Thumbprint ` set iCerts))
        \<and> (\<forall>x. index_bool (Serials_of h (entries ! k)) x = (x \<in> SerialNumber ` set iCerts))
        \<and> (\<forall>x. index_bool (Ids_of h (entries ! k)) x = (x \<in> Id_cert ` set iCerts))"
    and single: "([] :: anyval list) = [] \<longrightarrow> ([] :: anyval list) = [] \<longrightarrow> length [json_cert_A] = 1 \<longrightarrow>
         (\<exists>item iCert. pre @ entries @ post = [item] \<and> iCerts = [iCert]
            \<and> Certificates_of h item = [iCert]
            \<and> (\<forall>x. index_bool (Thumbprints_of h item) x = (x = Thumbprint iCert))
            \<and> (\<forall>x. index_bool (Serials_of h item) x = (x = SerialNumber iCert))
            \<and> (\<forall>x. index_bool (Ids_of h item) x = (x = Id_cert iCert)))"
    by (elim exE conjE) (rule that)
  from single obtain item iCert where item: "pre @ entries @ post = [item]"
    and one: "iCerts = [iCert]"
    and c: "Certificates_of h item = [iCert]"
    and t: "\<forall>x. index_bool (Thumbprints_of h item) x = (x = Thumbprint iCert)"
    and sn: "\<forall>x. index_bool (Serials_of h item) x = (x = SerialNumber iCert)"
    and i: "\<forall>x. index_bool (Ids_of h item) x = (x = Id_cert iCert)"
    by auto
  from lits one have "iCert = cert_A" by (simp add: iCert_A)
  with c t sn i have v: "Certificates_of h item = [cert_A]"
    "\<forall>x. index_bool (Thumbprints_of h item) x = (x = ''AA'')"
    "\<forall>x. index_bool (Serials_of h item) x = (x = ''01'')"
    "\<forall>x. index_bool (Ids_of h item) x = (x = 1)"
    by (simp_all add: cert_A_def)
  from run item have "GetCertStoreInventory
           (recording_transport \<lparr>StatusCode = 200, Body = ''leaf''\<rparr>)
           table_Decode doubling ''8'' empty_heap ([] :: unit request list)
           = Some (Inr [item], h, [inventory_request ''8''])"
    by simp
  with v have leaf: "\<exists>h item.
         GetCertStoreInventory (recording_transport \<lparr>StatusCode = 200, Body = ''leaf''\<rparr>)
           table_Decode doubling ''8'' empty_heap ([] :: unit request list)
           = Some (Inr [item], h, [inventory_request ''8''])
       \<and> Certificates_of h item = [cert_A]
       \<and> (\<forall>x. index_bool (Thumbprints_of h item) x = (x = ''AA''))
       \<and> (\<forall>x. index_bool (Serials_of h item) x = (x = ''01''))
       \<and> (\<forall>x. index_bool (Ids_of h item) x = (x = 1))"
    by (intro exI conjI)
  from chain leaf show ?thesis by (intro conjI)
qed

section \<open>The inventory decoder: results\<close>

text \<open>
  C1. The specification says that an element holding \<open>n\<close> certificates gives \<open>n\<close> entries,
  each carrying the element's full certificate list. On the payload of one element holding
  the certificates \<open>A\<close> and \<open>B\<close> the code returns two entries, and the second carries
  \<open>A\<close> and \<open>B\<close>, but the first carries \<open>A\<close> alone: \<^verbatim>\<open>append(invResp, invC)\<close>, placed inside
  the loop over the certificates, copies the slice header of \<^verbatim>\<open>invC.Certificates\<close> while its
  length is 1, and the later append to \<^verbatim>\<open>invC.Certificates\<close> does not lengthen the copy.
\<close>

theorem inventory_first_entry_lacks_later_certificate:
  "GetCertStoreInventory (recording_transport \<lparr>StatusCode = 200, Body = ''chain''\<rparr>)
       table_Decode doubling ''7'' empty_heap []
     = Some (Inr [chain_entry_1, chain_entry_2], chain_heap, [inventory_request ''7''])
   \<and> table_Decode ''chain'' = Inr [element_AB]
   \<and> field_slice element_AB ''Certificates'' = Some [json_cert_A, json_cert_B]
   \<and> iCert_literal json_cert_A = Some cert_A
   \<and> iCert_literal json_cert_B = Some cert_B
   \<and> Certificates_of chain_heap chain_entry_2 = [cert_A, cert_B]
   \<and> Certificates_of chain_heap chain_entry_1 = [cert_A]
   \<and> Certificates_of chain_heap chain_entry_1 \<noteq> [cert_A, cert_B]"
  by code_simp

text \<open>
  C2 says that in every returned item the three sets equal the projections of the item's
  own certificate list. The maps are shared by all entries of an element while each entry
  keeps the slice header it was copied with, so for the element holding \<open>A\<close> and \<open>B\<close> the
  first entry lists \<open>A\<close> alone, and its sets hold the thumbprint, the serial number and the
  id of \<open>B\<close> as well.
\<close>

theorem inventory_sets_exceed_certificates:
  "GetCertStoreInventory (recording_transport \<lparr>StatusCode = 200, Body = ''chain''\<rparr>)
       table_Decode doubling ''7'' empty_heap []
     = Some (Inr [chain_entry_1, chain_entry_2], chain_heap, [inventory_request ''7''])
   \<and> index_bool (Thumbprints_of chain_heap chain_entry_1) ''BB''
   \<and> ''BB'' \<notin> Thumbprint ` set (Certificates_of chain_heap chain_entry_1)
   \<and> index_bool (Serials_of chain_heap chain_entry_1) ''02''
   \<and> ''02'' \<notin> SerialNumber ` set (Certificates_of chain_heap chain_entry_1)
   \<and> index_bool (Ids_of chain_heap chain_entry_1) 2
   \<and> 2 \<notin> Id_cert ` set (Certificates_of chain_heap chain_entry_1)"
  by code_simp

text \<open>
  C9. Let the transport answer the GET request with a response whose body decodes to a
  payload \<open>before @ storedCert # after\<close> of well-typed elements, where \<open>storedCert\<close> has
  an empty \<^verbatim>\<open>Certificates\<close> array. Then \<^verbatim>\<open>GetCertStoreInventory\<close> returns, and
  the result has no entry for \<open>storedCert\<close>: its length is the number of certificates of the
  other elements, and every item was built from one of the other elements, one that holds
  a certificate (so has that element's name, item id and parameters). When \<open>storedCert\<close> is
  the whole payload the result is empty.
\<close>

theorem inventory_drops_empty_element:
  assumes sent: "sendRequest \<lparr>Method = ''GET'',
                   Endpoint = ''CertificateStores/'' @ storeId @ ''/Inventory'',
                   Headers = keyfactor_headers, Payload = None\<rparr> w = (Inr resp, w')"
    and decoded: "json_Decode (Body resp) = Inr (before @ storedCert # after)"
    and typed: "list_all well_typed_element (before @ storedCert # after)"
    and empty: "field_slice storedCert ''Certificates'' = Some []"
  shows "\<exists>h invResp.
      GetCertStoreInventory sendRequest json_Decode growslice storeId h0 w
        = Some (Inr invResp, h, w')
    \<and> length invResp
        = sum_list (map len_Certificates before) + sum_list (map len_Certificates after)
    \<and> (\<forall>item \<in> set invResp. \<exists>s \<in> set (before @ after). comes_from s item)
    \<and> (before = [] \<longrightarrow> after = [] \<longrightarrow> invResp = [])"
proof -
  from range_jsonResp_around [OF typed empty, of growslice h0]
  obtain h pre entries post where
    loop: "range_jsonResp growslice (before @ storedCert # after) (h0, [])
             = Some (h, pre @ entries @ post)"
    and n1: "length pre = sum_list (map len_Certificates before)"
    and n3: "length post = sum_list (map len_Certificates after)"
    and n2: "length entries = length ([] :: anyval list)"
    and origin: "\<forall>t \<in> set (pre @ post). \<exists>s' \<in> set (before @ after). comes_from s' t"
    by blast
  from n2 have none: "entries = []" by simp
  have run: "GetCertStoreInventory sendRequest json_Decode growslice storeId h0 w
        = Some (Inr (pre @ post), h, w')"
    using sent decoded loop none by (simp add: GetCertStoreInventory_def Let_def)
  moreover have "length (pre @ post)
        = sum_list (map len_Certificates before) + sum_list (map len_Certificates after)"
    using n1 n3 by simp
  moreover have "before = [] \<longrightarrow> after = [] \<longrightarrow> pre @ post = []"
    using n1 n3 by auto
  ultimately show ?thesis using origin by blast
qed

theorem inventory_drops_empty_element_witness:
  "table_Decode ''mixed'' = Inr ([element_A] @ element_none # [element_AB])
   \<and> field_slice element_none ''Certificates'' = Some []
   \<and> (\<exists>h invResp.
         GetCertStoreInventory (recording_transport \<lparr>StatusCode = 200, Body = ''mixed''\<rparr>)
           table_Decode doubling ''9'' empty_heap ([] :: unit request list)
           = Some (Inr invResp, h, [inventory_request ''9''])
       \<and> length invResp = 3)"
proof -
  have sent: "recording_transport \<lparr>StatusCode = 200, Body = ''mixed''\<rparr>
       \<lparr>Method = ''GET'', Endpoint = ''CertificateStores/'' @ ''9'' @ ''/Inventory'',
        Headers = keyfactor_headers, Payload = None\<rparr> ([] :: unit request list)
     = (Inr \<lparr>StatusCode = 200, Body = ''mixed''\<rparr>, [inventory_request ''9''])"
    by (simp add: recording_transport_def inventory_request_def)
  have decoded: "table_Decode (Body \<lparr>StatusCode = 200, Body = ''mixed''\<rparr>)
      = Inr ([element_A] @ element_none # [element_AB])"
    by (simp add: table_Decode_def)
  have typed: "list_all well_typed_element ([element_A] @ element_none # [element_AB])"
    by code_simp
  have empty: "field_slice element_none ''Certificates'' = Some []"
    by code_simp
  have counts: "sum_list (map len_Certificates [element_A])
                  + sum_list (map len_Certificates [element_AB]) = 3"
    by code_simp
  from inventory_drops_empty_element
    [where sendRequest = "recording_transport \<lparr>StatusCode = 200, Body = ''mixed''\<rparr>"
       and json_Decode = table_Decode and growslice = doubling and ?h0.0 = empty_heap
       and storeId = "''9''" and w = "[] :: unit request list",
     OF sent decoded typed empty] counts
  have "\<exists>h invResp.
         GetCertStoreInventory (recording_transport \<lparr>StatusCode = 200, Body = ''mixed''\<rparr>)
           table_Decode doubling ''9'' empty_heap ([] :: unit request list)
           = Some (Inr invResp, h, [inventory_request ''9''])
       \<and> length invResp = 3"
    by auto
  with decoded empty show ?thesis by simp
qed

end
